theory Spec2Isabelle
  imports Complex_Main "HOL-Library.AList"
begin

section \<open>Python strings\<close>

text \<open>
  A Python \<^verbatim>\<open>str\<close> is modelled as a \<^typ>\<open>string\<close>, one \<^typ>\<open>char\<close> per code point, so the
  model covers the code points 0 to 255. \<open>isspace\<close> is \<^verbatim>\<open>str.isspace\<close> on one character
  of that range: TAB to CR, FS to US, the space, NEL and the no-break space.
\<close>

definition isspace :: "char \<Rightarrow> bool" where
  "isspace c =
     (let n = (of_char c :: nat)
      in (9 \<le> n \<and> n \<le> 13) \<or> (28 \<le> n \<and> n \<le> 32) \<or> n = 133 \<or> n = 160)"

text \<open>
  \<^verbatim>\<open>text.split()\<close> with no argument: maximal runs of non-whitespace characters, in order.
  \<open>split_from cur s\<close> scans \<open>s\<close> with the characters \<open>cur\<close> of the word being read.
\<close>

fun split_from :: "string \<Rightarrow> string \<Rightarrow> string list" where
  "split_from cur [] = (if cur = [] then [] else [cur])"
| "split_from cur (c # cs) =
     (if isspace c then (if cur = [] then split_from [] cs else cur # split_from [] cs)
      else split_from (cur @ [c]) cs)"

definition split_ws :: "string \<Rightarrow> string list" where
  "split_ws s = split_from [] s"

text \<open>\<^verbatim>\<open>" ".join(ws)\<close>\<close>

fun join_sp :: "string list \<Rightarrow> string" where
  "join_sp [] = []"
| "join_sp [w] = w"
| "join_sp (w # v # ws) = w @ '' '' @ join_sp (v # ws)"

text \<open>\<^verbatim>\<open>def normalize_whitespace(text): return " ".join(text.split())\<close>\<close>

definition normalize_whitespace :: "string \<Rightarrow> string" where
  "normalize_whitespace text = join_sp (split_ws text)"

text \<open>\<^verbatim>\<open>s.strip()\<close> and \<^verbatim>\<open>s.split(",")\<close> (every comma separates, empty fields are kept).\<close>

definition strip :: "string \<Rightarrow> string" where
  "strip s = rev (dropWhile isspace (rev (dropWhile isspace s)))"

fun split_on :: "char \<Rightarrow> string \<Rightarrow> string \<Rightarrow> string list" where
  "split_on sep cur [] = [cur]"
| "split_on sep cur (c # cs) =
     (if c = sep then cur # split_on sep [] cs else split_on sep (cur @ [c]) cs)"

definition split_comma :: "string \<Rightarrow> string list" where
  "split_comma s = split_on (CHR '','') [] s"

text \<open>
  \<^verbatim>\<open>key.lower()\<close> on the code points 0 to 255: A to Z and the accented capitals
  (192 to 222, the multiplication sign 215 apart) move up by 32.
\<close>

definition lower_char :: "char \<Rightarrow> char" where
  "lower_char c =
     (let n = (of_char c :: nat)
      in if (65 \<le> n \<and> n \<le> 90) \<or> (192 \<le> n \<and> n \<le> 222 \<and> n \<noteq> 215)
         then char_of (n + 32) else c)"

definition lower :: "string \<Rightarrow> string" where
  "lower s = map lower_char s"

text \<open>\<^verbatim>\<open>str(idx)\<close> for a non-negative index: its decimal digits.\<close>

definition digit_char :: "nat \<Rightarrow> char" where
  "digit_char d = char_of (48 + d)"

fun str_nat :: "nat \<Rightarrow> string" where
  "str_nat n = (if n < 10 then [digit_char n] else str_nat (n div 10) @ [digit_char (n mod 10)])"

declare str_nat.simps [simp del]

text \<open>
  \<^verbatim>\<open>xs[i:j]\<close>: a negative bound counts from the end, and both bounds are clamped to
  the list.
\<close>

definition slice_index :: "nat \<Rightarrow> int \<Rightarrow> nat" where
  "slice_index n i =
     (if i < 0 then (if i + int n < 0 then 0 else nat (i + int n))
      else if int n < i then n else nat i)"

definition py_slice :: "'a list \<Rightarrow> int \<Rightarrow> int \<Rightarrow> 'a list" where
  "py_slice xs i j =
     (let lo = slice_index (length xs) i; hi = slice_index (length xs) j
      in take (hi - lo) (drop lo xs))"

section \<open>Values shared by the two services\<close>

datatype json =
    JNull
  | JBool bool
  | JInt int
  | JFloat real
  | JStr string
  | JArr "json list"
  | JObj "(string \<times> json) list"

text \<open>
  The exceptions the code raises or catches. \<open>HTTPError\<close> is
  \<^verbatim>\<open>requests.exceptions.HTTPError\<close> with the status code of its response (\<open>None\<close>
  where it has no response) and the URL it is about;
  \<open>RequestException\<close> stands for the other \<^verbatim>\<open>requests\<close> exceptions (connection
  errors, timeouts). \<open>TenacityRetryError\<close> is \<^verbatim>\<open>tenacity.RetryError\<close>, which the
  \<^verbatim>\<open>@retry\<close> decorator of \<^verbatim>\<open>utils.py\<close> raises with the last attempt's exception
  inside. \<open>GoogleRetryError\<close> is \<^verbatim>\<open>google.api_core.exceptions.RetryError\<close>, the class
  that \<^verbatim>\<open>main.py\<close> imports under the name \<^verbatim>\<open>RetryError\<close>. Neither retry class is a
  subclass of the other.
\<close>

datatype exc =
    RuntimeError string
  | ValueError string
  | TypeError string
  | KeyError string
  | AttributeError string
  | HTTPError "nat option" string
  | RequestException string
  | TenacityRetryError exc
  | GoogleRetryError string
  | OtherError string

record request =
  headers :: "(string \<times> string) list"
  get_json :: "json option"

text \<open>
  \<open>headers\<close> are the items of \<^verbatim>\<open>request.headers\<close> in order, with the names as
  Werkzeug gives them. \<open>get_json\<close> is
  \<^verbatim>\<open>request.get_json(force=True)\<close>: the parsed body, or \<open>None\<close> where parsing raises.
  \<^verbatim>\<open>request.headers.get(name)\<close> compares names without case and returns the first
  match; \<^verbatim>\<open>dict(request.headers)\<close> inserts the lines one after the other.
\<close>

definition headers_get :: "(string \<times> string) list \<Rightarrow> string \<Rightarrow> string option" where
  "headers_get hs name =
     map_option snd (find (\<lambda>kv. lower (fst kv) = lower name) hs)"

definition dict_of :: "('k \<times> 'v) list \<Rightarrow> ('k \<times> 'v) list" where
  "dict_of kvs = fold (\<lambda>kv d. AList.update (fst kv) (snd kv) d) kvs []"

text \<open>What a handler invocation ends with: a response, or an exception nobody caught.\<close>

datatype outcome = Responded json nat | Unhandled exc

section \<open>utils.py\<close>

subsection \<open>The outside of the ingestion service\<close>

datatype http_outcome = Response nat string | Raises exc

text \<open>
  The parse tree of a page. \<open>NavigableString\<close> is a string of text (character data
  included). \<open>SkippedString\<close> is a string of one of the classes that \<^verbatim>\<open>get_text()\<close> of
  a heading or paragraph leaves out: a comment, a declaration, a doctype, a processing
  instruction, and the content of a \<^verbatim>\<open>script\<close>, \<^verbatim>\<open>style\<close> or \<^verbatim>\<open>template\<close> element.
  \<open>Tag\<close> is an element: its name, its attributes (a dict) and its children.
\<close>

datatype node =
    NavigableString string
  | SkippedString string
  | Tag string "(string \<times> string) list" "node list"

record document =
  doc_id :: string
  doc_title :: string
  doc_url :: string
  doc_content :: string
  doc_section :: string
  doc_chunk_index :: nat

text \<open>
  Everything the ingestion code reads from outside itself, as parameters:
  \<^item> \<open>environ\<close>: the process environment;
  \<^item> \<open>http_get n url\<close>: what the \<open>n\<close>-th call of \<^verbatim>\<open>requests.get\<close> of the process does
    when it asks for \<open>url\<close>: a response (status code, text) or an exception;
  \<^item> \<open>beautiful_soup\<close>: \<^verbatim>\<open>BeautifulSoup(markup, "html.parser")\<close>, the top-level nodes;
  \<^item> \<open>urljoin\<close> (\<^verbatim>\<open>urllib.parse.urljoin\<close>, \<open>None\<close> where it raises ValueError, as on
    the href \<^verbatim>\<open>http://[\<close>), \<open>uuid5_url\<close> (\<^verbatim>\<open>str(uuid5(NAMESPACE_URL, name))\<close>),
    \<open>py_int\<close> (\<^verbatim>\<open>int(s)\<close>, \<open>Inl\<close> the exception where it raises) and \<open>str_exc\<close>
    (\<^verbatim>\<open>str(exc)\<close>): library functions;
  \<^item> \<open>vector_store docs\<close>: what the clients of the vector database and of the
    embedding model do with a non-empty batch (\<open>None\<close>: written, \<open>Some e\<close>: raised).
\<close>

record world =
  environ :: "string \<Rightarrow> string option"
  http_get :: "nat \<Rightarrow> string \<Rightarrow> http_outcome"
  beautiful_soup :: "string \<Rightarrow> node list"
  urljoin :: "string \<Rightarrow> string \<Rightarrow> string option"
  uuid5_url :: "string \<Rightarrow> string"
  py_int :: "string \<Rightarrow> exc + int"
  str_exc :: "exc \<Rightarrow> string"
  vector_store :: "document list \<Rightarrow> exc option"

subsection \<open>get_env\<close>

text \<open>
  \<^verbatim>\<open>
  def get_env(name, default=None, required=True):
      value = os.getenv(name, default)
      if required and (value is None or value == ""):
          raise RuntimeError(f"Missing required environment variable: {name}")
      return value
  \<close>
\<close>

definition get_env :: "world \<Rightarrow> string \<Rightarrow> string option \<Rightarrow> bool \<Rightarrow> exc + string option" where
  "get_env w name dflt required =
     (let value = (case environ w name of Some v \<Rightarrow> Some v | None \<Rightarrow> dflt)
      in if required \<and> (value = None \<or> value = Some [])
         then Inl (RuntimeError (''Missing required environment variable: '' @ name))
         else Inr value)"

subsection \<open>extract_text_from_html\<close>

text \<open>
  \<open>descendants\<close> is the walk of \<^verbatim>\<open>article.descendants\<close>: every node below the tag, in
  document order, strings of every class included. \<open>get_text\<close> is \<^verbatim>\<open>get_text()\<close> as
  the code calls it, on an \<^verbatim>\<open>h1\<close>, \<^verbatim>\<open>h2\<close>, \<^verbatim>\<open>h3\<close> or \<^verbatim>\<open>p\<close> element: the strings of
  text below the element, concatenated, the skipped classes left out. \<open>node_name\<close>
  is \<^verbatim>\<open>elem.name\<close>, \<open>None\<close> on a string. The attributes of a tag are a dict, so
  \<open>map_of\<close> is \<^verbatim>\<open>a.get("href")\<close>.
\<close>

fun descendants :: "node \<Rightarrow> node list" where
  "descendants (NavigableString s) = []"
| "descendants (SkippedString s) = []"
| "descendants (Tag name attrs children) = concat (map (\<lambda>c. c # descendants c) children)"

fun get_text :: "node \<Rightarrow> string" where
  "get_text (NavigableString s) = s"
| "get_text (SkippedString s) = []"
| "get_text (Tag name attrs children) = concat (map get_text children)"

fun node_name :: "node \<Rightarrow> string option" where
  "node_name (NavigableString s) = None"
| "node_name (SkippedString s) = None"
| "node_name (Tag name attrs children) = Some name"

fun node_attrs :: "node \<Rightarrow> (string \<times> string) list" where
  "node_attrs (NavigableString s) = []"
| "node_attrs (SkippedString s) = []"
| "node_attrs (Tag name attrs children) = attrs"

definition soup_nodes :: "node list \<Rightarrow> node list" where
  "soup_nodes soup = concat (map (\<lambda>c. c # descendants c) soup)"

definition soup_find :: "node list \<Rightarrow> string \<Rightarrow> node option" where
  "soup_find soup name = find (\<lambda>e. node_name e = Some name) (soup_nodes soup)"

record walk =
  current_heading :: string
  headings :: "string list"
  paragraphs :: "string list"
  sections :: "(string \<times> string) list"

text \<open>One turn of the loop over \<^verbatim>\<open>article.descendants\<close>; a section is (heading, text).\<close>

definition visit :: "node \<Rightarrow> walk \<Rightarrow> walk" where
  "visit elem st =
     (if node_name elem \<in> {Some ''h1'', Some ''h2'', Some ''h3''} then
        (let h = normalize_whitespace (get_text elem)
         in st\<lparr>current_heading := h, headings := headings st @ [h]\<rparr>)
      else if node_name elem = Some ''p'' then
        (let text = normalize_whitespace (get_text elem)
         in if text \<noteq> [] then
              st\<lparr>paragraphs := paragraphs st @ [text],
                 sections := sections st @ [(current_heading st, text)]\<rparr>
            else st)
      else st)"

record extracted =
  ex_title :: string
  ex_paragraphs :: "string list"
  ex_sections :: "(string \<times> string) list"
  ex_links :: "string list"

text \<open>
  \<^verbatim>\<open>
  links = [urljoin(base_url, a.get("href")) for a in soup.find_all("a", href=True)]
  \<close>
  The comprehension stops at the first href on which \<^verbatim>\<open>urljoin\<close> raises.
\<close>

fun resolve_links :: "world \<Rightarrow> string \<Rightarrow> string list \<Rightarrow> exc + string list" where
  "resolve_links w base_url [] = Inr []"
| "resolve_links w base_url (href # hrefs) =
     (case urljoin w base_url href of
        None \<Rightarrow> Inl (ValueError href)
      | Some link \<Rightarrow>
          (case resolve_links w base_url hrefs of
             Inl e \<Rightarrow> Inl e
           | Inr links \<Rightarrow> Inr (link # links)))"

text \<open>\<open>Inl\<close> is the exception that leaves the function.\<close>

definition extract_text_from_html :: "world \<Rightarrow> string \<Rightarrow> string \<Rightarrow> exc + extracted" where
  "extract_text_from_html w markup base_url =
     (let soup = beautiful_soup w markup;
          title = (case soup_find soup ''h1'' of
                     Some title_tag \<Rightarrow> normalize_whitespace (get_text title_tag)
                   | None \<Rightarrow> ''Untitled'');
          article = (case soup_find soup ''article'' of
                       Some a \<Rightarrow> Some a | None \<Rightarrow> soup_find soup ''body'');
          st = (case article of
                  Some a \<Rightarrow>
                    fold visit (descendants a)
                      \<lparr>current_heading = title, headings = [], paragraphs = [], sections = []\<rparr>
                | None \<Rightarrow>
                    \<lparr>current_heading = title, headings = [], paragraphs = [], sections = []\<rparr>);
          hrefs = concat (map (\<lambda>a. if node_name a = Some ''a''
                                     then (case map_of (node_attrs a) ''href'' of
                                             Some href \<Rightarrow> [href]
                                           | None \<Rightarrow> [])
                                     else [])
                              (soup_nodes soup))
      in case resolve_links w base_url hrefs of
           Inl e \<Rightarrow> Inl e
         | Inr links \<Rightarrow>
             Inr \<lparr>ex_title = title, ex_paragraphs = paragraphs st, ex_sections = sections st,
                  ex_links = links\<rparr>)"

subsection \<open>chunk_text\<close>

text \<open>
  \<^verbatim>\<open>
  def chunk_text(text, chunk_size=800, overlap=120):
      words = text.split()
      if not words:
          return []
      chunks = []
      start = 0
      step = chunk_size - overlap
      while start < len(words):
          end = min(start + chunk_size, len(words))
          chunk = " ".join(words[start:end])
          chunks.append(chunk)
          start += step
      return chunks
  \<close>
  The \<^verbatim>\<open>while\<close> loop may run forever, so it is a partial function: \<open>None\<close> is a
  call that does not return (memory is taken as unbounded). The integers are Python's.
\<close>

partial_function (option) chunk_loop ::
  "string list \<Rightarrow> int \<Rightarrow> int \<Rightarrow> int \<Rightarrow> string list \<Rightarrow> string list option" where
  "chunk_loop words chunk_size step start chunks =
     (if start < int (length words) then
        (let end = min (start + chunk_size) (int (length words));
             chunk = join_sp (py_slice words start end)
         in chunk_loop words chunk_size step (start + step) (chunks @ [chunk]))
      else Some chunks)"

declare chunk_loop.simps [code]

definition chunk_text :: "string \<Rightarrow> int \<Rightarrow> int \<Rightarrow> string list option" where
  "chunk_text text chunk_size overlap =
     (let words = split_ws text
      in if words = [] then Some []
         else chunk_loop words chunk_size (chunk_size - overlap) 0 [])"

subsection \<open>fetch_url\<close>

text \<open>
  \<^verbatim>\<open>
  @retry(stop=stop_after_attempt(5), wait=wait_exponential(multiplier=1, min=2, max=10))
  def fetch_url(url, timeout=30):
      response = requests.get(url, headers=headers, timeout=timeout)
      if response.status_code == 404:
          return None
      response.raise_for_status()
      return response.text
  \<close>
  \<open>fetch_once\<close> is one run of the body: \<^verbatim>\<open>raise_for_status\<close> raises HTTPError on the
  statuses 400 to 599. \<open>fetch_attempts\<close> is the decorator: an attempt that raises is
  repeated while attempts remain, and after the last one tenacity raises its
  RetryError around that attempt's exception. A returned value, \<open>None\<close> included, ends
  the call. The result carries the number of requests sent so far; the waits between
  the attempts are not modelled.
\<close>

definition fetch_once :: "world \<Rightarrow> nat \<Rightarrow> string \<Rightarrow> exc + string option" where
  "fetch_once w n url =
     (case http_get w n url of
        Raises e \<Rightarrow> Inl e
      | Response status_code text \<Rightarrow>
          if status_code = 404 then Inr None
          else if 400 \<le> status_code \<and> status_code < 600
          then Inl (HTTPError (Some status_code) url)
          else Inr (Some text))"

fun fetch_attempts :: "world \<Rightarrow> string \<Rightarrow> nat \<Rightarrow> nat \<Rightarrow> (exc + string option) \<times> nat" where
  "fetch_attempts w url remaining n =
     (case fetch_once w n url of
        Inr r \<Rightarrow> (Inr r, Suc n)
      | Inl e \<Rightarrow>
          (case remaining of
             0 \<Rightarrow> (Inl (TenacityRetryError e), Suc n)
           | Suc k \<Rightarrow> fetch_attempts w url k (Suc n)))"

definition fetch_url :: "world \<Rightarrow> string \<Rightarrow> nat \<Rightarrow> (exc + string option) \<times> nat" where
  "fetch_url w url n = fetch_attempts w url (5 - 1) n"

subsection \<open>prepare_documents\<close>

text \<open>
  \<^verbatim>\<open>
  for idx, chunk in enumerate(chunks):
      doc_uuid_source = f"{url}-{idx}-{chunk[:100]}"
      doc_id = str(uuid5(NAMESPACE_URL, doc_uuid_source))
      heading = parsed["sections"][idx]["heading"] if idx < len(parsed["sections"]) else parsed["title"]
      documents.append({"id": doc_id, "title": parsed["title"], "url": url,
                        "content": chunk, "section": heading, "chunk_index": idx})
  \<close>
\<close>

definition make_document :: "world \<Rightarrow> string \<Rightarrow> extracted \<Rightarrow> nat \<Rightarrow> string \<Rightarrow> document" where
  "make_document w url parsed idx chunk =
     (let doc_uuid_source = url @ ''-'' @ str_nat idx @ ''-'' @ take 100 chunk;
          heading = (if idx < length (ex_sections parsed)
                     then fst (ex_sections parsed ! idx) else ex_title parsed)
      in \<lparr>doc_id = uuid5_url w doc_uuid_source, doc_title = ex_title parsed, doc_url = url,
          doc_content = chunk, doc_section = heading, doc_chunk_index = idx\<rparr>)"

text \<open>
  The body of the loop over \<^verbatim>\<open>urls\<close> once a page has been fetched: parse, join the
  paragraphs, chunk, assemble. \<open>Some (Inl e)\<close> where the extraction raises \<open>e\<close>, \<open>None\<close>
  where \<open>chunk_text\<close> does not return.
\<close>

definition page_documents ::
  "world \<Rightarrow> string \<Rightarrow> string \<Rightarrow> int \<Rightarrow> int \<Rightarrow> (exc + document list) option" where
  "page_documents w url html chunk_size overlap =
     (case extract_text_from_html w html url of
        Inl e \<Rightarrow> Some (Inl e)
      | Inr parsed \<Rightarrow>
          (let full_text = join_sp (ex_paragraphs parsed)
           in case chunk_text full_text chunk_size overlap of
                None \<Rightarrow> None
              | Some chunks \<Rightarrow>
                  Some (Inr (map (\<lambda>ic. make_document w url parsed (fst ic) (snd ic))
                               (enumerate 0 chunks)))))"

text \<open>
  \<^verbatim>\<open>
  def prepare_documents(urls, chunk_size, overlap):
      documents = []
      for url in urls:
          html = fetch_url(url)
          if html is None:
              continue
          ...
      return documents
  \<close>
  The result is the exception raised or the documents, with the number of requests
  sent so far; \<open>None\<close> where the call does not return. The log lines of
  \<^verbatim>\<open>utils.py\<close> are not modelled.
\<close>

fun prepare_loop ::
  "world \<Rightarrow> string list \<Rightarrow> int \<Rightarrow> int \<Rightarrow> document list \<Rightarrow> nat
     \<Rightarrow> ((exc + document list) \<times> nat) option" where
  "prepare_loop w [] chunk_size overlap documents n = Some (Inr documents, n)"
| "prepare_loop w (url # urls) chunk_size overlap documents n =
     (case fetch_url w url n of
        (Inl e, n') \<Rightarrow> Some (Inl e, n')
      | (Inr None, n') \<Rightarrow> prepare_loop w urls chunk_size overlap documents n'
      | (Inr (Some html), n') \<Rightarrow>
          (case page_documents w url html chunk_size overlap of
             None \<Rightarrow> None
           | Some (Inl e) \<Rightarrow> Some (Inl e, n')
           | Some (Inr docs) \<Rightarrow> prepare_loop w urls chunk_size overlap (documents @ docs) n'))"

definition prepare_documents ::
  "world \<Rightarrow> string list \<Rightarrow> int \<Rightarrow> int \<Rightarrow> nat \<Rightarrow> ((exc + document list) \<times> nat) option" where
  "prepare_documents w urls chunk_size overlap n = prepare_loop w urls chunk_size overlap [] n"

section \<open>vectorstore.py\<close>

text \<open>
  The state of one process of the ingestion service: the number of requests sent, the
  lines logged by \<^verbatim>\<open>main.py\<close> (level, message, the \<^verbatim>\<open>extra\<close> or argument), the
  argument of every call of \<^verbatim>\<open>upsert_documents\<close>, and the batches written to the
  vector database.
\<close>

datatype level = INFO | WARNING | ERROR | EXCEPTION

record state =
  requests_sent :: nat
  log_lines :: "(level \<times> string \<times> json) list"
  upsert_calls :: "document list list"
  stored :: "document list list"

definition logger :: "level \<Rightarrow> string \<Rightarrow> json \<Rightarrow> state \<Rightarrow> state" where
  "logger lv msg extra s = s\<lparr>log_lines := log_lines s @ [(lv, msg, extra)]\<rparr>"

text \<open>
  \<^verbatim>\<open>
  def upsert_documents(documents):
      if not documents:
          return
      client = init_weaviate_client()
      ensure_schema(client)
      ...
  \<close>
  What follows the guard (the clients, the schema, the embeddings, the batch) is the
  parameter \<open>vector_store\<close>.
\<close>

definition upsert_documents :: "world \<Rightarrow> document list \<Rightarrow> state \<Rightarrow> (exc + unit) \<times> state" where
  "upsert_documents w documents s =
     (let s1 = s\<lparr>upsert_calls := upsert_calls s @ [documents]\<rparr>
      in if documents = [] then (Inr (), s1)
         else (case vector_store w documents of
                 Some e \<Rightarrow> (Inl e, s1)
               | None \<Rightarrow> (Inr (), s1\<lparr>stored := stored s1 @ [documents]\<rparr>)))"

section \<open>rag_poc_function/main.py\<close>

subsection \<open>_redact_headers\<close>

text \<open>
  \<^verbatim>\<open>
  def _redact_headers(headers):
      redacted = {}
      for key, value in headers.items():
          lowered = key.lower()
          if lowered in {"authorization", "x-ingest-token"}:
              redacted[key] = "***REDACTED***"
          else:
              redacted[key] = value
      return redacted
  \<close>
  A dict is the list of its items in insertion order; \<^verbatim>\<open>d[key] = v\<close> is
  \<open>AList.update\<close>, which replaces the value of a key in place and appends a new key.
\<close>

definition redact_headers :: "(string \<times> string) list \<Rightarrow> (string \<times> string) list" where
  "redact_headers hs =
     fold (\<lambda>kv redacted.
             (let key = fst kv; value = snd kv; lowered = lower key
              in if lowered \<in> {''authorization'', ''x-ingest-token''}
                 then AList.update key ''***REDACTED***'' redacted
                 else AList.update key value redacted))
          hs []"

subsection \<open>_unwrap_retry_http_error and _skip_url\<close>

text \<open>
  \<open>last_attempt_exception exc\<close> is \<^verbatim>\<open>getattr(exc, "last_attempt", None)\<close> followed by
  \<^verbatim>\<open>.exception()\<close>: only tenacity's RetryError has the attribute.
  \<open>response_status\<close> is \<^verbatim>\<open>exc.response.status_code\<close> where there is a response.
\<close>

definition last_attempt_exception :: "exc \<Rightarrow> exc option" where
  "last_attempt_exception e = (case e of TenacityRetryError root_exc \<Rightarrow> Some root_exc | _ \<Rightarrow> None)"

definition is_GoogleRetryError :: "exc \<Rightarrow> bool" where
  "is_GoogleRetryError e = (case e of GoogleRetryError m \<Rightarrow> True | _ \<Rightarrow> False)"

definition is_HTTPError :: "exc \<Rightarrow> bool" where
  "is_HTTPError e = (case e of HTTPError st m \<Rightarrow> True | _ \<Rightarrow> False)"

definition is_RequestException :: "exc \<Rightarrow> bool" where
  "is_RequestException e =
     (case e of HTTPError st m \<Rightarrow> True | RequestException m \<Rightarrow> True | _ \<Rightarrow> False)"

definition response_status :: "exc \<Rightarrow> nat option" where
  "response_status e = (case e of HTTPError st m \<Rightarrow> st | _ \<Rightarrow> None)"

definition unwrap_retry_http_error :: "exc \<Rightarrow> exc option" where
  "unwrap_retry_http_error e =
     (case last_attempt_exception e of
        None \<Rightarrow> None
      | Some root_exc \<Rightarrow> if is_HTTPError root_exc then Some root_exc else None)"

definition skip_url :: "string \<Rightarrow> string \<Rightarrow> string option \<Rightarrow> state \<Rightarrow> json \<times> state" where
  "skip_url url status detail s =
     (JObj [(''url'', JStr url), (''status'', JStr status)],
      logger WARNING ''URL skipped''
        (JObj [(''url'', JStr url), (''status'', JStr status),
               (''detail'', case detail of None \<Rightarrow> JNull | Some d \<Rightarrow> JStr d)]) s)"

subsection \<open>ingest_stripe_docs\<close>

text \<open>
  The loop over the URLs (lines 82 to 127). The \<^verbatim>\<open>except\<close> clauses are tried in the
  order of the source: \<^verbatim>\<open>RetryError\<close> (the class imported from
  \<^verbatim>\<open>google.api_core.exceptions\<close>), \<^verbatim>\<open>HTTPError\<close>, \<^verbatim>\<open>RequestException\<close>; an exception
  of no such class leaves the loop uncaught. \<open>Inl\<close> is an exception that leaves the loop.
\<close>

fun ingest_urls ::
  "world \<Rightarrow> int \<Rightarrow> int \<Rightarrow> string list \<Rightarrow> document list \<Rightarrow> json list \<Rightarrow> state
     \<Rightarrow> ((exc + document list \<times> json list) \<times> state) option" where
  "ingest_urls w chunk_size overlap [] all_documents skipped_urls s =
     Some (Inr (all_documents, skipped_urls), s)"
| "ingest_urls w chunk_size overlap (url # urls) all_documents skipped_urls s =
     (case prepare_documents w [url] chunk_size overlap (requests_sent s) of
        None \<Rightarrow> None
      | Some (Inr docs, n) \<Rightarrow>
          ingest_urls w chunk_size overlap urls (all_documents @ docs) skipped_urls
            (logger INFO ''Prepared documents for URL''
               (JObj [(''url'', JStr url), (''document_count'', JInt (int (length docs)))])
               (s\<lparr>requests_sent := n\<rparr>))
      | Some (Inl e, n) \<Rightarrow>
          (let s1 = s\<lparr>requests_sent := n\<rparr>
           in if is_GoogleRetryError e then
                (if (case unwrap_retry_http_error e of
                       Some http_error \<Rightarrow> response_status http_error = Some 404
                     | None \<Rightarrow> False)
                 then ingest_urls w chunk_size overlap urls all_documents
                        (skipped_urls @
                           [fst (skip_url url ''404''
                                   (map_option (str_exc w) (unwrap_retry_http_error e)) s1)])
                        (snd (skip_url url ''404''
                                (map_option (str_exc w) (unwrap_retry_http_error e)) s1))
                 else Some (Inl e,
                        logger EXCEPTION ''RetryError raised during document preparation''
                          (JObj [(''url'', JStr url)]) s1))
              else if is_HTTPError e then
                (if response_status e = Some 404
                 then ingest_urls w chunk_size overlap urls all_documents
                        (skipped_urls @ [fst (skip_url url ''404'' (Some (str_exc w e)) s1)])
                        (snd (skip_url url ''404'' (Some (str_exc w e)) s1))
                 else Some (Inl e,
                        logger EXCEPTION ''HTTPError raised during document preparation''
                          (JObj [(''url'', JStr url),
                                 (''status_code'',
                                  case response_status e of
                                    Some c \<Rightarrow> JInt (int c) | None \<Rightarrow> JStr ''unknown'')]) s1))
              else if is_RequestException e then
                Some (Inl e,
                  logger EXCEPTION ''RequestException raised during document preparation''
                    (JObj [(''url'', JStr url)]) s1)
              else Some (Inl e, s1)))"

text \<open>
  \<^verbatim>\<open>urls = [url.strip() for url in urls_csv.split(",") if url.strip()]\<close>
\<close>

definition parse_urls :: "string \<Rightarrow> string list" where
  "parse_urls urls_csv = map strip (filter (\<lambda>url. strip url \<noteq> []) (split_comma urls_csv))"

text \<open>
  A required variable: \<^verbatim>\<open>get_env(name)\<close>. With \<^verbatim>\<open>required=True\<close> the call never
  returns \<^verbatim>\<open>None\<close>, so the third case is never taken.
\<close>

definition get_env_required :: "world \<Rightarrow> string \<Rightarrow> exc + string" where
  "get_env_required w name =
     (case get_env w name None True of
        Inl e \<Rightarrow> Inl e
      | Inr (Some v) \<Rightarrow> Inr v
      | Inr None \<Rightarrow> Inl (RuntimeError (''Missing required environment variable: '' @ name)))"

definition int_of_env :: "world \<Rightarrow> string \<Rightarrow> exc + int" where
  "int_of_env w name =
     (case get_env_required w name of
        Inl e \<Rightarrow> Inl e
      | Inr v \<Rightarrow> py_int w v)"

text \<open>
  Lines 129 to 164: the answer once the loop has ended without an exception.
\<close>

definition ingest_finish ::
  "world \<Rightarrow> document list \<Rightarrow> json list \<Rightarrow> state \<Rightarrow> (exc + json \<times> nat) \<times> state" where
  "ingest_finish w all_documents skipped_urls s =
     (if all_documents = [] \<and> skipped_urls \<noteq> [] then
        (Inr (JObj [(''status'', JStr ''skipped''), (''ingested'', JInt 0),
                    (''skipped'', JArr skipped_urls)], 207),
         logger WARNING ''No documents ingested; every URL failed and was skipped''
           (JObj [(''skipped_count'', JInt (int (length skipped_urls)))]) s)
      else
        (let s1 = logger INFO ''Upserting documents''
                    (JObj [(''document_count'', JInt (int (length all_documents))),
                           (''skipped_count'', JInt (int (length skipped_urls)))]) s
         in case upsert_documents w all_documents s1 of
              (Inl e, s2) \<Rightarrow> (Inl e, s2)
            | (Inr u, s2) \<Rightarrow>
                (Inr (JObj [(''status'', JStr ''ok''),
                            (''ingested'', JInt (int (length all_documents))),
                            (''skipped'', JArr skipped_urls)], 200),
                 logger INFO ''Ingestion completed successfully''
                   (JObj [(''ingested_documents'', JInt (int (length all_documents))),
                          (''skipped_urls'', JArr skipped_urls)]) s2)))"

text \<open>
  The body of the outer \<^verbatim>\<open>try\<close> (lines 58 to 164): \<open>Inl\<close> is an exception that reaches
  the outer \<^verbatim>\<open>except\<close> clauses, \<open>Inr\<close> a response that is returned.
\<close>

definition ingest_try :: "world \<Rightarrow> request \<Rightarrow> state \<Rightarrow> ((exc + json \<times> nat) \<times> state) option" where
  "ingest_try w req s =
     (let auth_header = headers_get (headers req) ''X-Ingest-Token''
      in case get_env w ''INGEST_FUNCTION_TOKEN'' None False of
           Inl e \<Rightarrow> Some (Inl e, s)
         | Inr expected_token \<Rightarrow>
             if expected_token \<noteq> None \<and> expected_token \<noteq> Some [] \<and> auth_header \<noteq> expected_token
             then Some (Inr (JObj [(''error'', JStr ''Unauthorized'')], 401),
                    logger WARNING ''Unauthorized request: missing or invalid X-Ingest-Token''
                      JNull s)
             else
               (case get_env_required w ''STRIPE_DOC_URLS'' of
                  Inl e \<Rightarrow> Some (Inl e, s)
                | Inr urls_csv \<Rightarrow>
                    (case int_of_env w ''CHUNK_SIZE'' of
                       Inl e \<Rightarrow> Some (Inl e, s)
                     | Inr chunk_size \<Rightarrow>
                         (case int_of_env w ''CHUNK_OVERLAP'' of
                            Inl e \<Rightarrow> Some (Inl e, s)
                          | Inr overlap \<Rightarrow>
                              (let urls = parse_urls urls_csv
                               in if urls = [] then
                                    Some (Inr (JObj [(''error'', JStr ''No URLs provided'')], 400),
                                      logger WARNING
                                        ''No URLs provided after parsing STRIPE_DOC_URLS env''
                                        JNull s)
                                  else
                                    (case ingest_urls w chunk_size overlap urls [] []
                                            (logger INFO ''Preparing documents''
                                               (JObj [(''url_count'', JInt (int (length urls))),
                                                      (''chunk_size'', JInt chunk_size),
                                                      (''overlap'', JInt overlap)]) s) of
                                       None \<Rightarrow> None
                                     | Some (Inl e, s1) \<Rightarrow> Some (Inl e, s1)
                                     | Some (Inr (all_documents, skipped_urls), s1) \<Rightarrow>
                                         Some (ingest_finish w all_documents skipped_urls s1)))))))"

text \<open>
  The handler with its two outer \<^verbatim>\<open>except\<close> clauses (lines 166 to 188):
  \<^verbatim>\<open>except RetryError\<close>, which is the class of \<^verbatim>\<open>google.api_core.exceptions\<close>, then
  \<^verbatim>\<open>except Exception\<close>. The text of the traceback is not modelled. \<open>None\<close> is an
  invocation that does not return.
\<close>

definition ingest_stripe_docs :: "world \<Rightarrow> request \<Rightarrow> state \<Rightarrow> ((json \<times> nat) \<times> state) option" where
  "ingest_stripe_docs w req s =
     (let s0 = logger INFO ''Ingest request received''
                 (JObj [(''headers'',
                         JObj (map (\<lambda>kv. (fst kv, JStr (snd kv)))
                                 (redact_headers (dict_of (headers req)))))]) s
      in case ingest_try w req s0 of
           None \<Rightarrow> None
         | Some (Inr response, s1) \<Rightarrow> Some (response, s1)
         | Some (Inl e, s1) \<Rightarrow>
             if is_GoogleRetryError e then
               (let s2 = logger EXCEPTION ''RetryError raised during document ingestion'' JNull s1;
                    s3 = (case last_attempt_exception e of
                            Some root_exc \<Rightarrow>
                              logger ERROR ''Underlying traceback'' JNull
                                (logger ERROR ''Underlying exception for RetryError: %s''
                                   (JStr (str_exc w root_exc)) s2)
                          | None \<Rightarrow> s2)
                in Some ((JObj [(''error'', JStr ''RetryError''),
                                (''details'', JStr (str_exc w e))], 500), s3))
             else
               Some ((JObj [(''error'', JStr (str_exc w e))], 500),
                     logger EXCEPTION ''Unhandled exception during ingestion'' JNull s1))"

definition initial_state :: state where
  "initial_state = \<lparr>requests_sent = 0, log_lines = [], upsert_calls = [], stored = []\<rparr>"

section \<open>functions/embed-texts/main.py\<close>

text \<open>
  The outside of the embedding proxy: the environment, \<^verbatim>\<open>vertexai.init\<close> and
  \<^verbatim>\<open>TextEmbeddingModel.from_pretrained\<close> (\<open>Some e\<close> where they raise), and
  \<^verbatim>\<open>get_embeddings\<close>, which raises or returns the \<^verbatim>\<open>values\<close> of its records. The
  state is the two module globals; the model object is held by its name.
\<close>

record embed_world =
  os_environ :: "string \<Rightarrow> string option"
  vertexai_init :: "string \<Rightarrow> string \<Rightarrow> exc option"
  from_pretrained :: "string \<Rightarrow> exc option"
  get_embeddings :: "json list \<Rightarrow> exc + real list list"

record embed_state =
  vertex_client_initialized :: bool
  embedding_model :: "string option"

definition embed_initial :: embed_state where
  "embed_initial = \<lparr>vertex_client_initialized = False, embedding_model = None\<rparr>"

text \<open>
  \<^verbatim>\<open>
  def init_vertex_client():
      global vertex_client_initialized, embedding_model
      if vertex_client_initialized:
          return
      project_id = os.environ["VERTEX_PROJECT_ID"]
      location = os.environ["VERTEX_LOCATION"]
      vertexai_init(project=project_id, location=location)
      embedding_model = TextEmbeddingModel.from_pretrained("text-embedding-004")
      vertex_client_initialized = True
  \<close>
\<close>

definition init_vertex_client :: "embed_world \<Rightarrow> embed_state \<Rightarrow> (exc + unit) \<times> embed_state" where
  "init_vertex_client w s =
     (if vertex_client_initialized s then (Inr (), s)
      else (case os_environ w ''VERTEX_PROJECT_ID'' of
              None \<Rightarrow> (Inl (KeyError ''VERTEX_PROJECT_ID''), s)
            | Some project_id \<Rightarrow>
                (case os_environ w ''VERTEX_LOCATION'' of
                   None \<Rightarrow> (Inl (KeyError ''VERTEX_LOCATION''), s)
                 | Some location \<Rightarrow>
                     (case vertexai_init w project_id location of
                        Some e \<Rightarrow> (Inl e, s)
                      | None \<Rightarrow>
                          (case from_pretrained w ''text-embedding-004'' of
                             Some e \<Rightarrow> (Inl e, s)
                           | None \<Rightarrow>
                               (Inr (), s\<lparr>embedding_model := Some ''text-embedding-004'',
                                          vertex_client_initialized := True\<rparr>))))))"

text \<open>
  The truth value of a parsed JSON value (\<^verbatim>\<open>None\<close> is \<open>JNull\<close>),
  \<^verbatim>\<open>isinstance(v, list)\<close>, and the items of a list.
\<close>

fun truthy :: "json \<Rightarrow> bool" where
  "truthy JNull = False"
| "truthy (JBool b) = b"
| "truthy (JInt i) = (i \<noteq> 0)"
| "truthy (JFloat r) = (r \<noteq> 0)"
| "truthy (JStr s) = (s \<noteq> [])"
| "truthy (JArr xs) = (xs \<noteq> [])"
| "truthy (JObj kvs) = (kvs \<noteq> [])"

text \<open>
  \<^verbatim>\<open>
  def embed(request):
      init_vertex_client()
      token = request.headers.get("X-Internal-Token")
      expected = os.environ.get("EMBED_FUNCTION_TOKEN")
      if expected and token != expected:
          return jsonify({"error": "Unauthorized"}), 401
      try:
          payload = request.get_json(force=True)
      except Exception:
          return jsonify({"error": "Invalid JSON payload"}), 400
      texts = payload.get("texts")
      if not texts or not isinstance(texts, list):
          return jsonify({"error": "Missing 'texts' array"}), 400
      embeddings = embedding_model.get_embeddings(texts)
      vectors = [record.values for record in embeddings]
      return jsonify({"embeddings": vectors})
  \<close>
  \<^verbatim>\<open>payload.get\<close> exists on a dict only: on any other parsed value the attribute
  lookup raises AttributeError, which nothing catches. A parsed object is a dict, so
  its keys are distinct and \<open>map_of\<close> is \<^verbatim>\<open>.get\<close>.
\<close>

definition is_list :: "json \<Rightarrow> bool" where
  "is_list v = (case v of JArr xs \<Rightarrow> True | _ \<Rightarrow> False)"

definition list_items :: "json \<Rightarrow> json list" where
  "list_items v = (case v of JArr xs \<Rightarrow> xs | _ \<Rightarrow> [])"

definition embed_texts :: "embed_world \<Rightarrow> json \<Rightarrow> embed_state \<Rightarrow> outcome" where
  "embed_texts w payload s =
     (case payload of
        JObj kvs \<Rightarrow>
          (let texts = (case map_of kvs ''texts'' of Some v \<Rightarrow> v | None \<Rightarrow> JNull)
           in if \<not> truthy texts \<or> \<not> is_list texts
              then Responded (JObj [(''error'', JStr ''Missing 'texts' array'')]) 400
              else (case embedding_model s of
                      None \<Rightarrow> Unhandled (AttributeError ''get_embeddings'')
                    | Some m \<Rightarrow>
                        (case get_embeddings w (list_items texts) of
                           Inl e \<Rightarrow> Unhandled e
                         | Inr vectors \<Rightarrow>
                             Responded
                               (JObj [(''embeddings'',
                                       JArr (map (\<lambda>v. JArr (map JFloat v)) vectors))])
                               200)))
      | _ \<Rightarrow> Unhandled (AttributeError ''get''))"

definition embed :: "embed_world \<Rightarrow> request \<Rightarrow> embed_state \<Rightarrow> outcome \<times> embed_state" where
  "embed w req s =
     (case init_vertex_client w s of
        (Inl e, s1) \<Rightarrow> (Unhandled e, s1)
      | (Inr u, s1) \<Rightarrow>
          (let token = headers_get (headers req) ''X-Internal-Token'';
               expected = os_environ w ''EMBED_FUNCTION_TOKEN''
           in if expected \<noteq> None \<and> expected \<noteq> Some [] \<and> token \<noteq> expected
              then (Responded (JObj [(''error'', JStr ''Unauthorized'')]) 401, s1)
              else (case get_json req of
                      None \<Rightarrow> (Responded (JObj [(''error'', JStr ''Invalid JSON payload'')]) 400, s1)
                    | Some payload \<Rightarrow> (embed_texts w payload s1, s1))))"

text \<open>A process serving a sequence of requests, from a given state of the globals.\<close>

fun serve :: "embed_world \<Rightarrow> embed_state \<Rightarrow> request list \<Rightarrow> outcome list" where
  "serve w s [] = []"
| "serve w s (req # reqs) = fst (embed w req s) # serve w (snd (embed w req s)) reqs"

section \<open>Notions used to state the properties\<close>

text \<open>A word as \<^verbatim>\<open>split()\<close> produces it: not empty, no whitespace inside.\<close>

definition wordlike :: "string \<Rightarrow> bool" where
  "wordlike w = (w \<noteq> [] \<and> list_all (\<lambda>c. \<not> isspace c) w)"

text \<open>Two header names are equal without regard to case.\<close>

definition ci_equal :: "string \<Rightarrow> string \<Rightarrow> bool" where
  "ci_equal a b = (lower a = lower b)"

text \<open>
  The states of the embedding proxy that a process can be in: once the flag is set, the
  model is loaded.
\<close>

definition consistent :: "embed_state \<Rightarrow> bool" where
  "consistent s = (if vertex_client_initialized s then embedding_model s \<noteq> None else True)"

text \<open>The request is let through by the check of \<^verbatim>\<open>X-Internal-Token\<close>.\<close>

definition authorized :: "embed_world \<Rightarrow> request \<Rightarrow> bool" where
  "authorized w req =
     (os_environ w ''EMBED_FUNCTION_TOKEN'' = None \<or>
      os_environ w ''EMBED_FUNCTION_TOKEN'' = Some [] \<or>
      headers_get (headers req) ''X-Internal-Token'' = os_environ w ''EMBED_FUNCTION_TOKEN'')"

text \<open>A world and a request on which the embedding proxy is run below.\<close>

definition embed_world_ok :: embed_world where
  "embed_world_ok =
     \<lparr>os_environ = map_of [(''VERTEX_PROJECT_ID'', ''p''), (''VERTEX_LOCATION'', ''l'')],
      vertexai_init = (\<lambda>p l. None),
      from_pretrained = (\<lambda>m. None),
      get_embeddings = (\<lambda>ts. Inr (map (\<lambda>t. [1, 2]) ts))\<rparr>"

definition embed_world_unconfigured :: embed_world where
  "embed_world_unconfigured =
     \<lparr>os_environ = map_of [(''EMBED_FUNCTION_TOKEN'', ''secret'')],
      vertexai_init = (\<lambda>p l. None),
      from_pretrained = (\<lambda>m. None),
      get_embeddings = (\<lambda>ts. Inr (map (\<lambda>t. [1, 2]) ts))\<rparr>"

definition request_with :: "json option \<Rightarrow> request" where
  "request_with body = \<lparr>headers = [(''Content-Type'', ''application/json'')], get_json = body\<rparr>"

text \<open>
  The heading under which a word of the page's text stands: the full text is the
  paragraphs joined in order, so word \<open>k\<close> lies in the first paragraph not exhausted
  by the ones before it. \<open>None\<close> past the last word.
\<close>

fun heading_of_word :: "(string \<times> string) list \<Rightarrow> nat \<Rightarrow> string option" where
  "heading_of_word [] k = None"
| "heading_of_word (sec # secs) k =
     (if k < length (split_ws (snd sec)) then Some (fst sec)
      else heading_of_word secs (k - length (split_ws (snd sec))))"

text \<open>
  The walk of \<open>extract_text_from_html\<close> said without its loop: the paragraphs are the
  \<^verbatim>\<open>p\<close> elements with text, by position in the walk, and the heading in force at a
  position is the text of the last \<^verbatim>\<open>h1\<close>, \<^verbatim>\<open>h2\<close> or \<^verbatim>\<open>h3\<close> element before it, or
  the title where there is none.
\<close>

definition is_heading :: "node \<Rightarrow> bool" where
  "is_heading e = (node_name e \<in> {Some ''h1'', Some ''h2'', Some ''h3''})"

definition is_paragraph :: "node \<Rightarrow> bool" where
  "is_paragraph e = (node_name e = Some ''p'' \<and> normalize_whitespace (get_text e) \<noteq> [])"

definition heading_before :: "string \<Rightarrow> node list \<Rightarrow> string" where
  "heading_before title es =
     (if filter is_heading es = [] then title
      else normalize_whitespace (get_text (last (filter is_heading es))))"

definition paragraph_positions :: "node list \<Rightarrow> nat list" where
  "paragraph_positions es = filter (\<lambda>i. is_paragraph (es ! i)) [0..<length es]"

text \<open>The nodes that \<open>extract_text_from_html\<close> walks: below the first \<^verbatim>\<open>article\<close>, else below the body.\<close>

definition scope_nodes :: "node list \<Rightarrow> node list" where
  "scope_nodes soup =
     (case (case soup_find soup ''article'' of
              Some a \<Rightarrow> Some a | None \<Rightarrow> soup_find soup ''body'') of
        Some a \<Rightarrow> descendants a
      | None \<Rightarrow> [])"

text \<open>
  Worlds on which the ingestion service is run below. The page has two paragraphs,
  \<open>a b\<close> under the heading \<open>A\<close> and \<open>c\<close> under the heading \<open>B\<close>, and no \<^verbatim>\<open>h1\<close>.
\<close>

definition page_ab :: "node list" where
  "page_ab =
     [Tag ''html'' []
        [Tag ''body'' []
           [Tag ''h2'' [] [NavigableString ''A''],
            Tag ''p'' [] [NavigableString ''a b''],
            Tag ''h2'' [] [NavigableString ''B''],
            Tag ''p'' [] [NavigableString ''c'']]]]"

definition int_table :: "string \<Rightarrow> exc + int" where
  "int_table s =
     (case map_of [(''0'', 0), (''1'', 1), (''120'', 120), (''800'', 800)] s of
        Some i \<Rightarrow> Inr i
      | None \<Rightarrow> Inl (ValueError s))"

definition world_pages :: "(string \<times> string) list \<Rightarrow> (string \<Rightarrow> http_outcome) \<Rightarrow> world" where
  "world_pages env site =
     \<lparr>environ = map_of env,
      http_get = (\<lambda>n url. site url),
      beautiful_soup = (\<lambda>markup. page_ab),
      urljoin = (\<lambda>base href. if href = ''http://['' then None else Some href),
      uuid5_url = (\<lambda>name. ''uuid5:'' @ name),
      py_int = int_table,
      str_exc = (\<lambda>e. case e of TenacityRetryError cause \<Rightarrow> ''RetryError[last attempt]''
                         | _ \<Rightarrow> ''error''),
      vector_store = (\<lambda>docs. None)\<rparr>"

text \<open>Every URL answers 404.\<close>

definition world_all_404 :: world where
  "world_all_404 =
     world_pages [(''STRIPE_DOC_URLS'', ''u1, u2''), (''CHUNK_SIZE'', ''800''),
                  (''CHUNK_OVERLAP'', ''120'')]
       (\<lambda>url. Response 404 ''not found'')"

text \<open>The first URL answers 404, the second serves the page; chunks of one word.\<close>

definition world_mixed :: world where
  "world_mixed =
     world_pages [(''STRIPE_DOC_URLS'', ''u1,u2''), (''CHUNK_SIZE'', ''1''),
                  (''CHUNK_OVERLAP'', ''0'')]
       (\<lambda>url. if url = ''u1'' then Response 404 ''not found'' else Response 200 ''<html>'')"

text \<open>The only URL answers 500 on every attempt.\<close>

definition world_500 :: world where
  "world_500 =
     world_pages [(''STRIPE_DOC_URLS'', ''u1''), (''CHUNK_SIZE'', ''800''),
                  (''CHUNK_OVERLAP'', ''120'')]
       (\<lambda>url. Response 500 ''server error'')"

text \<open>
  The request passes the check of \<^verbatim>\<open>X-Ingest-Token\<close>, and the state in which the
  \<^verbatim>\<open>try\<close> block of \<open>ingest_stripe_docs\<close> starts (the request has been logged).
\<close>

definition ingest_authorized :: "world \<Rightarrow> request \<Rightarrow> bool" where
  "ingest_authorized w req =
     (environ w ''INGEST_FUNCTION_TOKEN'' = None \<or>
      environ w ''INGEST_FUNCTION_TOKEN'' = Some [] \<or>
      headers_get (headers req) ''X-Ingest-Token'' = environ w ''INGEST_FUNCTION_TOKEN'')"

definition received :: "request \<Rightarrow> state \<Rightarrow> state" where
  "received req s =
     logger INFO ''Ingest request received''
       (JObj [(''headers'',
               JObj (map (\<lambda>kv. (fst kv, JStr (snd kv)))
                       (redact_headers (dict_of (headers req)))))]) s"


section \<open>Properties of the string functions\<close>






lemma wordlike_take: "list_all wordlike ws \<Longrightarrow> list_all wordlike (take n ws)"
  by (metis append_take_drop_id list_all_append)

lemma wordlike_drop: "list_all wordlike ws \<Longrightarrow> list_all wordlike (drop n ws)"
  by (metis append_take_drop_id list_all_append)

lemma wordlike_py_slice: "list_all wordlike ws \<Longrightarrow> list_all wordlike (py_slice ws i j)"
  by (simp add: py_slice_def Let_def wordlike_take wordlike_drop)

section \<open>Properties of chunk_text\<close>

lemma chunk_loop_stuck:
  assumes "chunk_loop words cs step start chunks = Some r"
  shows "step \<le> 0 \<longrightarrow> \<not> start < int (length words)"
proof (rule chunk_loop.raw_induct
    [where P = "\<lambda>words cs step start chunks r. step \<le> 0 \<longrightarrow> \<not> start < int (length words)",
      OF _ assms])
  fix f words cs step start chunks r
  assume IH: "\<And>words cs step start chunks r. f words cs step start chunks = Some r \<Longrightarrow>
      step \<le> 0 \<longrightarrow> \<not> start < int (length words)"
    and body: "(if start < int (length words) then
        (let end = min (start + cs) (int (length words));
             chunk = join_sp (py_slice words start end)
         in f words cs step (start + step) (chunks @ [chunk]))
      else Some chunks) = Some r"
  show "step \<le> 0 \<longrightarrow> \<not> start < int (length words)"
  proof (intro impI notI)
    assume s: "step \<le> 0" and lt: "start < int (length words)"
    from body lt have "f words cs step (start + step)
        (chunks @ [join_sp (py_slice words start (min (start + cs) (int (length words))))]) = Some r"
      by (simp add: Let_def)
    from IH[OF this] s have "\<not> start + step < int (length words)" by simp
    with s lt show False by linarith
  qed
qed

lemma chunk_loop_diverges:
  "step \<le> 0 \<Longrightarrow> start < int (length words) \<Longrightarrow> chunk_loop words cs step start chunks = None"
  using chunk_loop_stuck [of words cs step start chunks]
  by (cases "chunk_loop words cs step start chunks") auto

lemma chunk_loop_terminates:
  "0 < step \<Longrightarrow> \<exists>r. chunk_loop words cs step start chunks = Some r"
proof (induction "nat (int (length words) - start)" arbitrary: start chunks rule: less_induct)
  case less
  show ?case
  proof (cases "start < int (length words)")
    case True
    have "nat (int (length words) - (start + step)) < nat (int (length words) - start)"
      using True less.prems by linarith
    from less.hyps[OF this less.prems] show ?thesis
      by (subst chunk_loop.simps) (simp add: True Let_def)
  next
    case False
    then show ?thesis by (subst chunk_loop.simps) simp
  qed
qed

text \<open>
  C4, as amended. \<open>chunk_text\<close> has no guard on the step and raises nothing. With
  \<open>overlap < chunk_size\<close> it returns on every text. With \<open>chunk_size \<le> overlap\<close> it
  returns the empty list on a text without words and does not return on any other
  text.
\<close>

theorem chunk_text_termination:
  "(overlap < chunk_size \<longrightarrow> (\<exists>chunks. chunk_text text chunk_size overlap = Some chunks)) \<and>
   (chunk_size \<le> overlap \<longrightarrow>
      chunk_text text chunk_size overlap = (if split_ws text = [] then Some [] else None))"
proof (intro conjI impI)
  assume "overlap < chunk_size"
  then have "0 < chunk_size - overlap" by simp
  from chunk_loop_terminates [OF this]
  show "\<exists>chunks. chunk_text text chunk_size overlap = Some chunks"
    by (simp add: chunk_text_def Let_def)
next
  assume "chunk_size \<le> overlap"
  then have "chunk_size - overlap \<le> 0" by simp
  then show "chunk_text text chunk_size overlap = (if split_ws text = [] then Some [] else None)"
    by (simp add: chunk_text_def Let_def chunk_loop_diverges)
qed

lemma split_ws_a: "split_ws ''a'' = [''a'']"
  by (simp add: split_ws_def isspace_def)


theorem chunk_text_termination_witness:
  "(\<exists>chunks. chunk_text ''a b c'' 2 1 = Some chunks) \<and> chunk_text ''a'' 1 1 = None"
  using chunk_text_termination [of 1 2 "''a b c''"] chunk_text_termination [of 1 1 "''a''"]
  by (simp add: split_ws_a)

text \<open>
  C4 as stated fails: with \<open>chunk_size = overlap = 1\<close> the call on the text \<open>a\<close> does not
  return (no configuration error is raised), and on the empty text it returns the
  empty list.
\<close>

theorem chunk_text_no_guard_counterexample:
  "chunk_text ''a'' 1 1 = None \<and> chunk_text '''' 1 1 = Some []"
  by (simp add: chunk_text_def Let_def split_ws_a chunk_loop_diverges) (simp add: split_ws_def)







section \<open>Header redaction\<close>

lemma update_fresh:
  "k \<notin> fst ` set al \<Longrightarrow> AList.update k v al = al @ [(k, v)]"
  by (induction al) auto

lemma lower_authorization: "lower ''authorization'' = ''authorization''"
  by code_simp

lemma lower_x_ingest_token: "lower ''x-ingest-token'' = ''x-ingest-token''"
  by code_simp

lemma lower_examples:
  "lower ''Authorization'' = ''authorization''"
  "lower ''X-Ingest-Token'' = ''x-ingest-token''"
  "lower ''Content-Type'' = ''content-type''"
  by code_simp+

lemma redact_fold:
  "distinct (map fst (acc @ hs)) \<Longrightarrow>
   fold (\<lambda>kv redacted.
           (let key = fst kv; value = snd kv; lowered = lower key
            in if lowered \<in> {''authorization'', ''x-ingest-token''}
               then AList.update key ''***REDACTED***'' redacted
               else AList.update key value redacted))
        hs acc
   = acc @ map (\<lambda>kv. (fst kv,
                       if ci_equal (fst kv) ''authorization'' \<or> ci_equal (fst kv) ''x-ingest-token''
                       then ''***REDACTED***'' else snd kv)) hs"
proof (induction hs arbitrary: acc)
  case Nil
  then show ?case by simp
next
  case (Cons kv hs)
  obtain k v where kv: "kv = (k, v)" by (cases kv)
  have fresh: "k \<notin> fst ` set acc" using Cons.prems kv by auto
  have up: "\<And>x. AList.update k x acc = acc @ [(k, x)]"
    by (rule update_fresh [OF fresh])
  have d: "\<And>x. distinct (map fst ((acc @ [(k, x)]) @ hs))" using Cons.prems kv by auto
  show ?case
    using Cons.IH [OF d, of "''***REDACTED***''"] Cons.IH [OF d, of v]
    by (simp add: kv Let_def up ci_equal_def lower_authorization lower_x_ingest_token)
qed

text \<open>
  C9. On every header dict (a list of items with distinct keys), \<open>redact_headers\<close>
  keeps the keys and their order, replaces by \<open>***REDACTED***\<close> the value of every header
  whose name equals \<open>authorization\<close> or \<open>x-ingest-token\<close> without regard to case, and
  leaves every other value unchanged.
\<close>

theorem redact_headers_spec:
  assumes "distinct (map fst hs)"
  shows "redact_headers hs =
           map (\<lambda>kv. (fst kv,
                      if ci_equal (fst kv) ''authorization'' \<or> ci_equal (fst kv) ''x-ingest-token''
                      then ''***REDACTED***'' else snd kv)) hs"
  unfolding redact_headers_def using redact_fold [of "[]" hs] assms by simp

theorem redact_headers_spec_witness:
  "redact_headers [(''Authorization'', ''Bearer abc''), (''X-Ingest-Token'', ''t''),
                   (''Content-Type'', ''application/json'')]
   = [(''Authorization'', ''***REDACTED***''), (''X-Ingest-Token'', ''***REDACTED***''),
      (''Content-Type'', ''application/json'')]"
  using redact_headers_spec [of "[(''Authorization'', ''Bearer abc''), (''X-Ingest-Token'', ''t''),
                   (''Content-Type'', ''application/json'')]"]
  by (simp add: ci_equal_def lower_examples lower_authorization lower_x_ingest_token)

text \<open>The handler redacts \<open>dict_of (headers req)\<close>, whose keys are distinct.\<close>

lemma dict_of_distinct_aux:
  "distinct (map fst acc) \<Longrightarrow>
   distinct (map fst (fold (\<lambda>kv d. AList.update (fst kv) (snd kv) d) kvs acc))"
  by (induction kvs arbitrary: acc) (simp_all add: distinct_update)

lemma dict_of_distinct: "distinct (map fst (dict_of kvs))"
  by (simp add: dict_of_def dict_of_distinct_aux)


section \<open>The embedding proxy\<close>

lemma init_vertex_client_consistent:
  "consistent s \<Longrightarrow> consistent (snd (init_vertex_client w s))"
  by (auto simp: init_vertex_client_def consistent_def split: option.splits if_splits)

lemma init_vertex_client_ok:
  assumes "init_vertex_client w s = (Inr u, s1)" and "consistent s"
  shows "embedding_model s1 \<noteq> None"
  using assms
  by (auto simp: init_vertex_client_def consistent_def split: if_splits option.splits)

lemma embed_consistent: "consistent s \<Longrightarrow> consistent (snd (embed w req s))"
  using init_vertex_client_consistent [of s w]
  by (auto simp: embed_def Let_def split: prod.splits sum.splits option.splits)

lemma embed_after_init:
  assumes "init_vertex_client w s = (Inr u, s1)" and "authorized w req"
  shows "fst (embed w req s) =
           (case get_json req of
              None \<Rightarrow> Responded (JObj [(''error'', JStr ''Invalid JSON payload'')]) 400
            | Some payload \<Rightarrow> embed_texts w payload s1)"
  using assms by (auto simp: embed_def authorized_def Let_def split: option.splits)

text \<open>
  C8, as amended. For every authorized request on which the client initialization
  succeeds, in a state a process can be in:
  \<^item> a body that is not parseable JSON gives 400 \<open>Invalid JSON payload\<close>;
  \<^item> a JSON object whose \<open>texts\<close> is absent, null, not a list or the empty list gives 400
    \<open>Missing 'texts' array\<close>;
  \<^item> a JSON object whose \<open>texts\<close> is a non-empty list, on which the embedding model
    returns, gives 200 with one vector per record the model returned, in the model's
    order.
\<close>

theorem embed_validation:
  assumes init: "init_vertex_client w s = (Inr u, s1)"
    and cons: "consistent s"
    and auth: "authorized w req"
  shows "(get_json req = None \<longrightarrow>
            fst (embed w req s) = Responded (JObj [(''error'', JStr ''Invalid JSON payload'')]) 400) \<and>
         (\<forall>kvs. get_json req = Some (JObj kvs) \<longrightarrow>
            (map_of kvs ''texts'' = None \<or>
             (\<exists>v. map_of kvs ''texts'' = Some v \<and> (is_list v \<longrightarrow> v = JArr []))) \<longrightarrow>
            fst (embed w req s) = Responded (JObj [(''error'', JStr ''Missing 'texts' array'')]) 400) \<and>
         (\<forall>kvs t ts vectors.
            get_json req = Some (JObj kvs) \<longrightarrow> map_of kvs ''texts'' = Some (JArr (t # ts)) \<longrightarrow>
            get_embeddings w (t # ts) = Inr vectors \<longrightarrow>
            fst (embed w req s) =
              Responded (JObj [(''embeddings'', JArr (map (\<lambda>v. JArr (map JFloat v)) vectors))]) 200)"
proof (intro conjI allI impI)
  assume "get_json req = None"
  then show "fst (embed w req s) = Responded (JObj [(''error'', JStr ''Invalid JSON payload'')]) 400"
    by (simp add: embed_after_init [OF init auth])
next
  fix kvs
  assume body: "get_json req = Some (JObj kvs)"
    and bad: "map_of kvs ''texts'' = None \<or>
              (\<exists>v. map_of kvs ''texts'' = Some v \<and> (is_list v \<longrightarrow> v = JArr []))"
  have "\<not> truthy (case map_of kvs ''texts'' of Some v \<Rightarrow> v | None \<Rightarrow> JNull) \<or>
        \<not> is_list (case map_of kvs ''texts'' of Some v \<Rightarrow> v | None \<Rightarrow> JNull)"
  proof (cases "map_of kvs ''texts''")
    case None
    then show ?thesis by simp
  next
    case (Some v)
    with bad have "is_list v \<longrightarrow> v = JArr []" by simp
    then show ?thesis using Some by (cases v) (simp_all add: is_list_def)
  qed
  then show "fst (embed w req s) = Responded (JObj [(''error'', JStr ''Missing 'texts' array'')]) 400"
    by (simp add: embed_after_init [OF init auth] body embed_texts_def Let_def)
next
  fix kvs t ts vectors
  assume body: "get_json req = Some (JObj kvs)"
    and texts: "map_of kvs ''texts'' = Some (JArr (t # ts))"
    and model: "get_embeddings w (t # ts) = Inr vectors"
  from init_vertex_client_ok [OF init cons] obtain m where m: "embedding_model s1 = Some m"
    by auto
  show "fst (embed w req s) =
          Responded (JObj [(''embeddings'', JArr (map (\<lambda>v. JArr (map JFloat v)) vectors))]) 200"
    by (simp add: embed_after_init [OF init auth] body texts model m embed_texts_def Let_def
        is_list_def list_items_def)
qed


lemma init_embed_world_ok:
  "init_vertex_client embed_world_ok embed_initial =
     (Inr (), \<lparr>vertex_client_initialized = True, embedding_model = Some ''text-embedding-004''\<rparr>)"
  by (simp add: init_vertex_client_def embed_world_ok_def embed_initial_def)

lemma consistent_initial: "consistent embed_initial"
  by (simp add: consistent_def embed_initial_def)

lemma authorized_embed_world_ok: "authorized embed_world_ok req"
  by (simp add: authorized_def embed_world_ok_def)

theorem embed_validation_witness:
  "fst (embed embed_world_ok (request_with None) embed_initial)
     = Responded (JObj [(''error'', JStr ''Invalid JSON payload'')]) 400 \<and>
   fst (embed embed_world_ok (request_with (Some (JObj [(''texts'', JArr [])]))) embed_initial)
     = Responded (JObj [(''error'', JStr ''Missing 'texts' array'')]) 400 \<and>
   fst (embed embed_world_ok (request_with (Some (JObj [(''texts'', JStr ''not-a-list'')])))
          embed_initial)
     = Responded (JObj [(''error'', JStr ''Missing 'texts' array'')]) 400 \<and>
   fst (embed embed_world_ok
          (request_with (Some (JObj [(''texts'', JArr [JStr ''a'', JStr ''b''])]))) embed_initial)
     = Responded (JObj [(''embeddings'',
                        JArr [JArr [JFloat 1, JFloat 2], JArr [JFloat 1, JFloat 2]])]) 200"
proof -
  note v = embed_validation [OF init_embed_world_ok consistent_initial authorized_embed_world_ok]
  have g: "\<And>b. get_json (request_with b) = b" by (simp add: request_with_def)
  have 1: "fst (embed embed_world_ok (request_with None) embed_initial)
             = Responded (JObj [(''error'', JStr ''Invalid JSON payload'')]) 400"
    using v [of "request_with None"] by (simp add: g)
  have 2: "fst (embed embed_world_ok (request_with (Some (JObj [(''texts'', JArr [])])))
                  embed_initial)
             = Responded (JObj [(''error'', JStr ''Missing 'texts' array'')]) 400"
    using v [of "request_with (Some (JObj [(''texts'', JArr [])]))"] by (simp add: g)
  have 3: "fst (embed embed_world_ok (request_with (Some (JObj [(''texts'', JStr ''not-a-list'')])))
                  embed_initial)
             = Responded (JObj [(''error'', JStr ''Missing 'texts' array'')]) 400"
    using v [of "request_with (Some (JObj [(''texts'', JStr ''not-a-list'')]))"]
    by (simp add: g is_list_def)
  have 4: "fst (embed embed_world_ok
                  (request_with (Some (JObj [(''texts'', JArr [JStr ''a'', JStr ''b''])])))
                  embed_initial)
             = Responded (JObj [(''embeddings'',
                                JArr [JArr [JFloat 1, JFloat 2], JArr [JFloat 1, JFloat 2]])]) 200"
    using v [of "request_with (Some (JObj [(''texts'', JArr [JStr ''a'', JStr ''b''])]))"]
    by (simp add: g embed_world_ok_def)
  from 1 2 3 4 show ?thesis by blast
qed

text \<open>
  C8 as stated fails on two authorized requests. Where the environment lacks
  \<open>VERTEX_PROJECT_ID\<close>, a request with the right token and a valid body ends with the
  KeyError of the initialization, not with a response. Where the client initializes,
  the body \<open>[]\<close> is parseable JSON without a \<open>texts\<close> field, yet the result is not the
  400 response but an AttributeError that nothing catches.
\<close>

theorem embed_validation_counterexample:
  "authorized embed_world_unconfigured
     \<lparr>headers = [(''X-Internal-Token'', ''secret'')],
      get_json = Some (JObj [(''texts'', JArr [JStr ''a''])])\<rparr> \<and>
   fst (embed embed_world_unconfigured
          \<lparr>headers = [(''X-Internal-Token'', ''secret'')],
           get_json = Some (JObj [(''texts'', JArr [JStr ''a''])])\<rparr> embed_initial)
     = Unhandled (KeyError ''VERTEX_PROJECT_ID'') \<and>
   authorized embed_world_ok (request_with (Some (JArr []))) \<and>
   fst (embed embed_world_ok (request_with (Some (JArr []))) embed_initial)
     = Unhandled (AttributeError ''get'')"
proof -
  have "lower ''X-Internal-Token'' = ''x-internal-token''" by code_simp
  then have a: "authorized embed_world_unconfigured
     \<lparr>headers = [(''X-Internal-Token'', ''secret'')],
      get_json = Some (JObj [(''texts'', JArr [JStr ''a''])])\<rparr>"
    by (simp add: authorized_def embed_world_unconfigured_def headers_get_def)
  have b: "fst (embed embed_world_unconfigured
          \<lparr>headers = [(''X-Internal-Token'', ''secret'')],
           get_json = Some (JObj [(''texts'', JArr [JStr ''a''])])\<rparr> embed_initial)
     = Unhandled (KeyError ''VERTEX_PROJECT_ID'')"
    by (simp add: embed_def init_vertex_client_def embed_world_unconfigured_def embed_initial_def)
  have c: "fst (embed embed_world_ok (request_with (Some (JArr []))) embed_initial)
     = Unhandled (AttributeError ''get'')"
    by (simp add: embed_after_init [OF init_embed_world_ok authorized_embed_world_ok]
        request_with_def embed_texts_def)
  from a b c authorized_embed_world_ok show ?thesis by blast
qed

section \<open>Initialization comes first in the embedding proxy\<close>

lemma embed_init_fails:
  "init_vertex_client w s = (Inl e, s1) \<Longrightarrow> embed w req s = (Unhandled e, s1)"
  by (simp add: embed_def)

lemma embed_unconfigured:
  assumes "os_environ w ''VERTEX_PROJECT_ID'' = None \<or> os_environ w ''VERTEX_LOCATION'' = None"
    and "\<not> vertex_client_initialized s"
  shows "snd (embed w req s) = s \<and>
         (fst (embed w req s) = Unhandled (KeyError ''VERTEX_PROJECT_ID'') \<or>
          fst (embed w req s) = Unhandled (KeyError ''VERTEX_LOCATION''))"
  using assms by (auto simp: embed_def init_vertex_client_def split: option.splits)

lemma serve_unconfigured:
  assumes "os_environ w ''VERTEX_PROJECT_ID'' = None \<or> os_environ w ''VERTEX_LOCATION'' = None"
    and "\<not> vertex_client_initialized s"
  shows "list_all (\<lambda>r. r = Unhandled (KeyError ''VERTEX_PROJECT_ID'') \<or>
                        r = Unhandled (KeyError ''VERTEX_LOCATION'')) (serve w s reqs)"
  using assms(2)
proof (induction reqs arbitrary: s)
  case Nil
  then show ?case by simp
next
  case (Cons req reqs)
  from embed_unconfigured [OF assms(1) Cons.prems, of req] Cons.IH [OF Cons.prems]
  show ?case by auto
qed

lemma length_serve: "length (serve w s reqs) = length reqs"
  by (induction reqs arbitrary: s) simp_all

text \<open>
  C10. \<open>embed\<close> runs \<open>init_vertex_client\<close> before it looks at the request: an exception of
  the initialization is the outcome of the invocation whatever the request is. So in a
  process whose environment lacks \<open>VERTEX_PROJECT_ID\<close> or \<open>VERTEX_LOCATION\<close>, every
  request of every sequence of requests, unauthorized or malformed ones included, ends
  with the KeyError uncaught, and none with a response.
\<close>

theorem embed_initialization_first:
  "(\<forall>e s1. init_vertex_client w s = (Inl e, s1) \<longrightarrow> embed w req s = (Unhandled e, s1)) \<and>
   (os_environ w ''VERTEX_PROJECT_ID'' = None \<or> os_environ w ''VERTEX_LOCATION'' = None \<longrightarrow>
      length (serve w embed_initial reqs) = length reqs \<and>
      list_all (\<lambda>r. r = Unhandled (KeyError ''VERTEX_PROJECT_ID'') \<or>
                    r = Unhandled (KeyError ''VERTEX_LOCATION''))
        (serve w embed_initial reqs))"
proof (intro conjI allI impI)
  fix e s1
  assume "init_vertex_client w s = (Inl e, s1)"
  then show "embed w req s = (Unhandled e, s1)" by (rule embed_init_fails)
next
  show "length (serve w embed_initial reqs) = length reqs" by (rule length_serve)
next
  assume "os_environ w ''VERTEX_PROJECT_ID'' = None \<or> os_environ w ''VERTEX_LOCATION'' = None"
  then show "list_all (\<lambda>r. r = Unhandled (KeyError ''VERTEX_PROJECT_ID'') \<or>
                            r = Unhandled (KeyError ''VERTEX_LOCATION''))
               (serve w embed_initial reqs)"
    by (rule serve_unconfigured) (simp add: embed_initial_def)
qed

theorem embed_initialization_first_witness:
  "embed embed_world_unconfigured (request_with None) embed_initial
     = (Unhandled (KeyError ''VERTEX_PROJECT_ID''), embed_initial) \<and>
   serve embed_world_unconfigured embed_initial
     [request_with None, request_with (Some (JObj [(''texts'', JArr [JStr ''a''])]))]
     = [Unhandled (KeyError ''VERTEX_PROJECT_ID''), Unhandled (KeyError ''VERTEX_PROJECT_ID'')]"
proof -
  have i: "init_vertex_client embed_world_unconfigured embed_initial
             = (Inl (KeyError ''VERTEX_PROJECT_ID''), embed_initial)"
    by (simp add: init_vertex_client_def embed_world_unconfigured_def embed_initial_def)
  have m: "os_environ embed_world_unconfigured ''VERTEX_PROJECT_ID'' = None \<or>
           os_environ embed_world_unconfigured ''VERTEX_LOCATION'' = None"
    by (simp add: embed_world_unconfigured_def)
  note t = embed_initialization_first [of embed_world_unconfigured embed_initial]
  have 1: "embed embed_world_unconfigured (request_with None) embed_initial
             = (Unhandled (KeyError ''VERTEX_PROJECT_ID''), embed_initial)"
    using t [of "request_with None" "[]"] i by blast
  have 2: "serve embed_world_unconfigured embed_initial
             [request_with None, request_with (Some (JObj [(''texts'', JArr [JStr ''a''])]))]
           = [Unhandled (KeyError ''VERTEX_PROJECT_ID''),
              Unhandled (KeyError ''VERTEX_PROJECT_ID'')]"
    using 1 by (simp add: embed_def i)
  from 1 2 show ?thesis by blast
qed


section \<open>Fetching and preparing one URL\<close>

lemma fetch_url_404:
  "http_get w n url = Response 404 body \<Longrightarrow> fetch_url w url n = (Inr None, Suc n)"
  by (simp add: fetch_url_def fetch_once_def)

lemma fetch_attempts_exhausted:
  "(\<And>k. k \<le> remaining \<Longrightarrow> fetch_once w (n + k) url = Inl (e (n + k))) \<Longrightarrow>
   fetch_attempts w url remaining n
     = (Inl (TenacityRetryError (e (n + remaining))), Suc (n + remaining))"
proof (induction remaining arbitrary: n)
  case 0
  from 0 [of 0] show ?case by simp
next
  case (Suc r)
  have first: "fetch_once w n url = Inl (e n)" using Suc.prems [of 0] by simp
  have rest: "\<And>k. k \<le> r \<Longrightarrow> fetch_once w (Suc n + k) url = Inl (e (Suc n + k))"
    using Suc.prems [of "Suc k" for k] by simp
  show ?case
    using Suc.IH [of "Suc n", OF rest] first
    by (subst fetch_attempts.simps) simp
qed

lemma fetch_url_exhausted:
  assumes "\<And>k. k < 5 \<Longrightarrow> fetch_once w (n + k) url = Inl (e (n + k))"
  shows "fetch_url w url n = (Inl (TenacityRetryError (e (n + 4))), n + 5)"
  using fetch_attempts_exhausted [of 4 w n url e] assms by (simp add: fetch_url_def)

lemma fetch_url_raises_retry_error:
  "fetch_url w url n = (Inl x, m) \<Longrightarrow> \<exists>root. x = TenacityRetryError root"
proof -
  have "fetch_attempts w url r n = (Inl x, m) \<Longrightarrow> \<exists>root. x = TenacityRetryError root" for r
    by (induction r arbitrary: n)
      (subst (asm) fetch_attempts.simps, auto split: sum.splits)+
  then show "fetch_url w url n = (Inl x, m) \<Longrightarrow> \<exists>root. x = TenacityRetryError root"
    by (simp add: fetch_url_def)
qed

lemma prepare_documents_single:
  "prepare_documents w [url] chunk_size overlap n =
     (case fetch_url w url n of
        (Inl e, n') \<Rightarrow> Some (Inl e, n')
      | (Inr None, n') \<Rightarrow> Some (Inr [], n')
      | (Inr (Some html), n') \<Rightarrow>
          (case page_documents w url html chunk_size overlap of
             None \<Rightarrow> None
           | Some r \<Rightarrow> Some (r, n')))"
  by (simp add: prepare_documents_def split: prod.splits sum.splits option.splits)

lemma prepare_documents_404:
  "http_get w n url = Response 404 body \<Longrightarrow>
   prepare_documents w [url] chunk_size overlap n = Some (Inr [], Suc n)"
  by (simp add: prepare_documents_single fetch_url_404)

lemma prepare_documents_fetched:
  assumes "fetch_url w url n = (Inr (Some html), m)"
    and "prepare_documents w [url] chunk_size overlap n = Some (Inr docs, n')"
  shows "page_documents w url html chunk_size overlap = Some (Inr docs)"
  using assms by (simp add: prepare_documents_single split: option.splits)

lemma page_documents_nth:
  assumes "page_documents w url html chunk_size overlap = Some (Inr docs)"
  shows "\<exists>parsed chunks.
           extract_text_from_html w html url = Inr parsed \<and>
           chunk_text (join_sp (ex_paragraphs parsed)) chunk_size overlap = Some chunks \<and>
           length docs = length chunks \<and>
           (\<forall>idx<length chunks. docs ! idx = make_document w url parsed idx (chunks ! idx))"
  using assms
  by (auto simp: page_documents_def Let_def nth_enumerate_eq split: option.splits sum.splits)

lemma page_documents_returns:
  assumes "extract_text_from_html w html url = Inr parsed"
    and "chunk_text (join_sp (ex_paragraphs parsed)) chunk_size overlap = Some chunks"
  shows "page_documents w url html chunk_size overlap =
           Some (Inr (map (\<lambda>ic. make_document w url parsed (fst ic) (snd ic))
                        (enumerate 0 chunks)))"
  using assms by (simp add: page_documents_def Let_def)


section \<open>The walk of extract_text_from_html\<close>

lemma heading_not_paragraph: "is_heading e \<Longrightarrow> node_name e \<noteq> Some ''p''"
  by (auto simp: is_heading_def)

lemma visit_heading:
  "is_heading e \<Longrightarrow>
   visit e st = st\<lparr>current_heading := normalize_whitespace (get_text e),
                   headings := headings st @ [normalize_whitespace (get_text e)]\<rparr>"
  by (simp add: visit_def is_heading_def Let_def)

lemma visit_paragraph:
  "is_paragraph e \<Longrightarrow>
   visit e st = st\<lparr>paragraphs := paragraphs st @ [normalize_whitespace (get_text e)],
                   sections := sections st @ [(current_heading st, normalize_whitespace (get_text e))]\<rparr>"
  by (auto simp: visit_def is_paragraph_def Let_def)

lemma visit_other: "\<not> is_heading e \<Longrightarrow> \<not> is_paragraph e \<Longrightarrow> visit e st = st"
  by (auto simp: visit_def is_paragraph_def is_heading_def Let_def)

lemma heading_before_snoc:
  "heading_before title (es @ [e]) =
     (if is_heading e then normalize_whitespace (get_text e) else heading_before title es)"
  by (simp add: heading_before_def)

lemma paragraph_positions_snoc:
  "paragraph_positions (es @ [e]) =
     paragraph_positions es @ (if is_paragraph e then [length es] else [])"
proof -
  have "filter (\<lambda>i. is_paragraph ((es @ [e]) ! i)) [0..<length es]
        = filter (\<lambda>i. is_paragraph (es ! i)) [0..<length es]"
    by (rule filter_cong) (simp_all add: nth_append)
  then show ?thesis by (simp add: paragraph_positions_def)
qed

lemma paragraph_positions_bound: "i \<in> set (paragraph_positions es) \<Longrightarrow> i < length es"
  by (simp add: paragraph_positions_def)

lemma walk_fold:
  "current_heading (fold visit es st) = heading_before (current_heading st) es \<and>
   sections (fold visit es st) =
     sections st @
     map (\<lambda>i. (heading_before (current_heading st) (take i es),
               normalize_whitespace (get_text (es ! i)))) (paragraph_positions es)"
proof (induction es rule: rev_induct)
  case Nil
  then show ?case by (simp add: heading_before_def paragraph_positions_def)
next
  case (snoc e es)
  have old: "map (\<lambda>i. (heading_before (current_heading st) (take i (es @ [e])),
                       normalize_whitespace (get_text ((es @ [e]) ! i)))) (paragraph_positions es)
           = map (\<lambda>i. (heading_before (current_heading st) (take i es),
                       normalize_whitespace (get_text (es ! i)))) (paragraph_positions es)"
    by (rule map_cong) (auto dest: paragraph_positions_bound simp: nth_append)
  consider (h) "is_heading e" | (p) "\<not> is_heading e" "is_paragraph e"
    | (o) "\<not> is_heading e" "\<not> is_paragraph e" by blast
  then show ?case
  proof cases
    case h
    then have "\<not> is_paragraph e" by (auto simp: is_paragraph_def dest: heading_not_paragraph)
    with h snoc old show ?thesis
      by (simp add: visit_heading heading_before_snoc paragraph_positions_snoc)
  next
    case p
    with snoc old show ?thesis
      by (simp add: visit_paragraph heading_before_snoc paragraph_positions_snoc)
  next
    case o
    with snoc old show ?thesis
      by (simp add: visit_other heading_before_snoc paragraph_positions_snoc)
  qed
qed

lemma extract_sections:
  assumes "extract_text_from_html w markup base_url = Inr parsed"
  shows "ex_sections parsed =
     map (\<lambda>i. (heading_before (ex_title parsed) (take i (scope_nodes (beautiful_soup w markup))),
               normalize_whitespace (get_text (scope_nodes (beautiful_soup w markup) ! i))))
       (paragraph_positions (scope_nodes (beautiful_soup w markup)))"
  using assms
  by (auto simp: extract_text_from_html_def scope_nodes_def Let_def walk_fold
      paragraph_positions_def split: option.splits sum.splits)


section \<open>The documents of a page\<close>

lemma fetch_world_mixed_u2: "fetch_url world_mixed ''u2'' n = (Inr (Some ''<html>''), Suc n)"
  by (simp add: fetch_url_def fetch_once_def world_mixed_def world_pages_def)

lemma extract_page_ab:
  "extract_text_from_html world_mixed ''<html>'' ''u2'' =
     Inr \<lparr>ex_title = ''Untitled'', ex_paragraphs = [''a b'', ''c''],
          ex_sections = [(''A'', ''a b''), (''B'', ''c'')], ex_links = []\<rparr>"
  by code_simp

lemma page_documents_mixed:
  "page_documents world_mixed ''u2'' ''<html>'' 1 0 =
     Some (Inr [\<lparr>doc_id = ''uuid5:u2-0-a'', doc_title = ''Untitled'', doc_url = ''u2'',
              doc_content = ''a'', doc_section = ''A'', doc_chunk_index = 0\<rparr>,
           \<lparr>doc_id = ''uuid5:u2-1-b'', doc_title = ''Untitled'', doc_url = ''u2'',
              doc_content = ''b'', doc_section = ''B'', doc_chunk_index = 1\<rparr>,
           \<lparr>doc_id = ''uuid5:u2-2-c'', doc_title = ''Untitled'', doc_url = ''u2'',
              doc_content = ''c'', doc_section = ''Untitled'', doc_chunk_index = 2\<rparr>])"
  by code_simp

lemma prepare_documents_mixed:
  "prepare_documents world_mixed [''u2''] 1 0 n =
     Some (Inr [\<lparr>doc_id = ''uuid5:u2-0-a'', doc_title = ''Untitled'', doc_url = ''u2'',
              doc_content = ''a'', doc_section = ''A'', doc_chunk_index = 0\<rparr>,
           \<lparr>doc_id = ''uuid5:u2-1-b'', doc_title = ''Untitled'', doc_url = ''u2'',
              doc_content = ''b'', doc_section = ''B'', doc_chunk_index = 1\<rparr>,
           \<lparr>doc_id = ''uuid5:u2-2-c'', doc_title = ''Untitled'', doc_url = ''u2'',
              doc_content = ''c'', doc_section = ''Untitled'', doc_chunk_index = 2\<rparr>], Suc n)"
  by (simp add: prepare_documents_single fetch_world_mixed_u2 page_documents_mixed)

text \<open>
  What the code computes as the section of a chunk: the heading at the chunk's index in
  the sections list, which holds one entry per paragraph, each with the nearest heading
  before that paragraph.
\<close>

lemma document_section_by_index:
  assumes "fetch_url w url n = (Inr (Some html), m)"
    and "prepare_documents w [url] chunk_size overlap n = Some (Inr docs, n')"
  shows "\<exists>parsed.
           extract_text_from_html w html url = Inr parsed \<and>
           (\<forall>idx<length docs.
              doc_chunk_index (docs ! idx) = idx \<and>
              doc_section (docs ! idx) =
                (if idx < length (ex_sections parsed) then fst (ex_sections parsed ! idx)
                 else ex_title parsed)) \<and>
           length (ex_sections parsed)
             = length (paragraph_positions (scope_nodes (beautiful_soup w html))) \<and>
           (\<forall>j<length (ex_sections parsed).
              fst (ex_sections parsed ! j) =
                heading_before (ex_title parsed)
                  (take (paragraph_positions (scope_nodes (beautiful_soup w html)) ! j)
                     (scope_nodes (beautiful_soup w html))))"
proof -
  from page_documents_nth [OF prepare_documents_fetched [OF assms]]
  obtain parsed chunks where ex: "extract_text_from_html w html url = Inr parsed"
    and len: "length docs = length chunks"
    and nth: "\<forall>i<length chunks. docs ! i = make_document w url parsed i (chunks ! i)"
    by blast
  have a: "\<forall>idx<length docs.
              doc_chunk_index (docs ! idx) = idx \<and>
              doc_section (docs ! idx) =
                (if idx < length (ex_sections parsed) then fst (ex_sections parsed ! idx)
                 else ex_title parsed)"
    using nth len by (simp add: make_document_def Let_def)
  have b: "length (ex_sections parsed)
             = length (paragraph_positions (scope_nodes (beautiful_soup w html)))"
    by (subst extract_sections [OF ex]) simp
  have c: "\<forall>j<length (ex_sections parsed).
              fst (ex_sections parsed ! j) =
                heading_before (ex_title parsed)
                  (take (paragraph_positions (scope_nodes (beautiful_soup w html)) ! j)
                     (scope_nodes (beautiful_soup w html)))"
  proof (intro allI impI)
    fix j assume "j < length (ex_sections parsed)"
    then have j: "j < length (paragraph_positions (scope_nodes (beautiful_soup w html)))"
      using b by simp
    show "fst (ex_sections parsed ! j) =
            heading_before (ex_title parsed)
              (take (paragraph_positions (scope_nodes (beautiful_soup w html)) ! j)
                 (scope_nodes (beautiful_soup w html)))"
      by (subst extract_sections [OF ex]) (simp add: j)
  qed
  from ex a b c show ?thesis by blast
qed

text \<open>
  C5: the code at the failing input. The page has the paragraph \<open>a b\<close> under the heading
  \<open>A\<close> and the paragraph \<open>c\<close> under the heading \<open>B\<close>, and no \<^verbatim>\<open>h1\<close>. With chunks of one
  word, \<open>prepare_documents\<close> returns three documents. The second is the word \<open>b\<close>, word 1
  of the page, which stands under \<open>A\<close>; its section field is \<open>B\<close>. The third is the word
  \<open>c\<close>, word 2 of the page, which stands under \<open>B\<close>; its section field is the page title.
\<close>

theorem document_section_failing_input:
  "(\<exists>docs. prepare_documents world_mixed [''u2''] 1 0 0 = Some (Inr docs, 1) \<and>
      length docs = 3 \<and>
      doc_content (docs ! 1) = ''b'' \<and> doc_section (docs ! 1) = ''B'' \<and>
      doc_content (docs ! 2) = ''c'' \<and> doc_section (docs ! 2) = ''Untitled'') \<and>
   map_sum id ex_sections (extract_text_from_html world_mixed ''<html>'' ''u2'')
     = Inr [(''A'', ''a b''), (''B'', ''c'')] \<and>
   heading_of_word [(''A'', ''a b''), (''B'', ''c'')] 1 = Some ''A'' \<and>
   heading_of_word [(''A'', ''a b''), (''B'', ''c'')] 2 = Some ''B''"
proof -
  have "heading_of_word [(''A'', ''a b''), (''B'', ''c'')] 1 = Some ''A''" by code_simp
  moreover have "heading_of_word [(''A'', ''a b''), (''B'', ''c'')] 2 = Some ''B''" by code_simp
  ultimately show ?thesis by (simp add: prepare_documents_mixed extract_page_ab)
qed

section \<open>Deterministic identifiers\<close>













section \<open>The ingestion handler\<close>

lemma logger_fields [simp]:
  "requests_sent (logger lv msg extra s) = requests_sent s"
  "upsert_calls (logger lv msg extra s) = upsert_calls s"
  "stored (logger lv msg extra s) = stored s"
  "log_lines (logger lv msg extra s) = log_lines s @ [(lv, msg, extra)]"
  by (simp_all add: logger_def)

lemma ingest_urls_404_step:
  assumes "http_get w (requests_sent s) url = Response 404 body"
  shows "ingest_urls w chunk_size overlap (url # urls) all_documents skipped_urls s =
           ingest_urls w chunk_size overlap urls all_documents skipped_urls
             (logger INFO ''Prepared documents for URL''
                (JObj [(''url'', JStr url), (''document_count'', JInt 0)])
                (s\<lparr>requests_sent := Suc (requests_sent s)\<rparr>))"
  by (simp add: prepare_documents_404 [OF assms])

lemma ingest_urls_all_404:
  assumes "\<And>n url. url \<in> set urls \<Longrightarrow> \<exists>body. http_get w n url = Response 404 body"
  shows "\<exists>s'. ingest_urls w chunk_size overlap urls all_documents skipped_urls s
                 = Some (Inr (all_documents, skipped_urls), s') \<and>
              upsert_calls s' = upsert_calls s \<and> stored s' = stored s \<and>
              requests_sent s' = requests_sent s + length urls"
  using assms
proof (induction urls arbitrary: s)
  case Nil
  then show ?case by simp
next
  case (Cons url urls)
  from Cons.prems [of url "requests_sent s"]
  obtain body where b: "http_get w (requests_sent s) url = Response 404 body" by auto
  have rest: "\<And>n u. u \<in> set urls \<Longrightarrow> \<exists>body. http_get w n u = Response 404 body"
    using Cons.prems by simp
  from Cons.IH [OF rest, of "logger INFO ''Prepared documents for URL''
                (JObj [(''url'', JStr url), (''document_count'', JInt 0)])
                (s\<lparr>requests_sent := Suc (requests_sent s)\<rparr>)"]
  show ?case unfolding ingest_urls_404_step [OF b] by auto
qed

lemma ingest_stripe_docs_received:
  "ingest_stripe_docs w req s =
     (case ingest_try w req (received req s) of
        None \<Rightarrow> None
      | Some (Inr response, s1) \<Rightarrow> Some (response, s1)
      | Some (Inl e, s1) \<Rightarrow>
          if is_GoogleRetryError e then
            (let s2 = logger EXCEPTION ''RetryError raised during document ingestion'' JNull s1;
                 s3 = (case last_attempt_exception e of
                         Some root_exc \<Rightarrow>
                           logger ERROR ''Underlying traceback'' JNull
                             (logger ERROR ''Underlying exception for RetryError: %s''
                                (JStr (str_exc w root_exc)) s2)
                       | None \<Rightarrow> s2)
             in Some ((JObj [(''error'', JStr ''RetryError''),
                             (''details'', JStr (str_exc w e))], 500), s3))
          else
            Some ((JObj [(''error'', JStr (str_exc w e))], 500),
                  logger EXCEPTION ''Unhandled exception during ingestion'' JNull s1))"
  by (simp add: ingest_stripe_docs_def received_def Let_def)

lemma get_env_optional: "get_env w name None False = Inr (environ w name)"
  by (simp add: get_env_def split: option.splits)

lemma ingest_try_configured:
  assumes "ingest_authorized w req"
    and "get_env_required w ''STRIPE_DOC_URLS'' = Inr urls_csv"
    and "int_of_env w ''CHUNK_SIZE'' = Inr chunk_size"
    and "int_of_env w ''CHUNK_OVERLAP'' = Inr overlap"
    and "parse_urls urls_csv \<noteq> []"
  shows "ingest_try w req s =
           (case ingest_urls w chunk_size overlap (parse_urls urls_csv) [] []
                   (logger INFO ''Preparing documents''
                      (JObj [(''url_count'', JInt (int (length (parse_urls urls_csv)))),
                             (''chunk_size'', JInt chunk_size),
                             (''overlap'', JInt overlap)]) s) of
              None \<Rightarrow> None
            | Some (Inl e, s1) \<Rightarrow> Some (Inl e, s1)
            | Some (Inr (all_documents, skipped_urls), s1) \<Rightarrow>
                Some (ingest_finish w all_documents skipped_urls s1))"
  using assms
  by (auto simp: ingest_try_def ingest_authorized_def get_env_optional Let_def)

lemma ingest_finish_nothing:
  "ingest_finish w [] [] s =
     (Inr (JObj [(''status'', JStr ''ok''), (''ingested'', JInt 0), (''skipped'', JArr [])], 200),
      logger INFO ''Ingestion completed successfully''
        (JObj [(''ingested_documents'', JInt 0), (''skipped_urls'', JArr [])])
        ((logger INFO ''Upserting documents''
           (JObj [(''document_count'', JInt 0), (''skipped_count'', JInt 0)]) s)
         \<lparr>upsert_calls := upsert_calls s @ [[]]\<rparr>))"
  by (simp add: ingest_finish_def upsert_documents_def Let_def)

text \<open>
  C1: what the code does. In every invocation that passes the token check, with the
  configuration present, a non-empty URL list and every fetch answered by 404, the
  endpoint responds 200 with status \<open>ok\<close>, ingested 0 and an empty skipped list;
  \<open>upsert_documents\<close> is called once, with the empty list, and writes nothing.
\<close>

theorem ingest_all_404:
  assumes "ingest_authorized w req"
    and "get_env_required w ''STRIPE_DOC_URLS'' = Inr urls_csv"
    and "int_of_env w ''CHUNK_SIZE'' = Inr chunk_size"
    and "int_of_env w ''CHUNK_OVERLAP'' = Inr overlap"
    and "parse_urls urls_csv \<noteq> []"
    and "\<And>n url. url \<in> set (parse_urls urls_csv) \<Longrightarrow> \<exists>body. http_get w n url = Response 404 body"
  shows "\<exists>s'. ingest_stripe_docs w req s =
                 Some ((JObj [(''status'', JStr ''ok''), (''ingested'', JInt 0),
                              (''skipped'', JArr [])], 200), s') \<and>
              upsert_calls s' = upsert_calls s @ [[]] \<and> stored s' = stored s"
proof -
  let ?s0 = "logger INFO ''Preparing documents''
               (JObj [(''url_count'', JInt (int (length (parse_urls urls_csv)))),
                      (''chunk_size'', JInt chunk_size), (''overlap'', JInt overlap)])
               (received req s)"
  from ingest_urls_all_404 [OF assms(6), where chunk_size = chunk_size and overlap = overlap
      and all_documents = "[]" and skipped_urls = "[]" and s = ?s0]
  obtain s1 where loop: "ingest_urls w chunk_size overlap (parse_urls urls_csv) [] [] ?s0
                           = Some (Inr ([], []), s1)"
    and u: "upsert_calls s1 = upsert_calls s" and st: "stored s1 = stored s"
    by (auto simp: received_def)
  show ?thesis
    by (simp add: ingest_stripe_docs_received ingest_try_configured [OF assms(1-5)] loop
        ingest_finish_nothing u st)
qed


lemma world_pages_config:
  "environ (world_pages env site) = map_of env"
  "http_get (world_pages env site) n url = site url"
  "py_int (world_pages env site) = int_table"
  "vector_store (world_pages env site) docs = None"
  by (simp_all add: world_pages_def)

lemma authorized_world_pages:
  "map_of env ''INGEST_FUNCTION_TOKEN'' = None \<Longrightarrow> ingest_authorized (world_pages env site) req"
  by (simp add: ingest_authorized_def world_pages_config)

lemma config_all_404:
  "ingest_authorized world_all_404 req"
  "get_env_required world_all_404 ''STRIPE_DOC_URLS'' = Inr ''u1, u2''"
  "int_of_env world_all_404 ''CHUNK_SIZE'' = Inr 800"
  "int_of_env world_all_404 ''CHUNK_OVERLAP'' = Inr 120"
  by (simp_all add: world_all_404_def authorized_world_pages get_env_required_def
      int_of_env_def get_env_def world_pages_config int_table_def)

lemma parse_urls_u1_u2: "parse_urls ''u1, u2'' = [''u1'', ''u2'']" "parse_urls ''u1,u2'' = [''u1'', ''u2'']"
  by code_simp+

lemma parse_urls_u1: "parse_urls ''u1'' = [''u1'']"
  by code_simp

theorem ingest_all_404_witness:
  "map_option fst (ingest_stripe_docs world_all_404 (request_with None) initial_state)
     = Some (JObj [(''status'', JStr ''ok''), (''ingested'', JInt 0), (''skipped'', JArr [])], 200) \<and>
   map_option (\<lambda>r. upsert_calls (snd r))
     (ingest_stripe_docs world_all_404 (request_with None) initial_state) = Some [[]] \<and>
   map_option (\<lambda>r. stored (snd r))
     (ingest_stripe_docs world_all_404 (request_with None) initial_state) = Some []"
proof -
  have ne: "parse_urls ''u1, u2'' \<noteq> []" by (simp add: parse_urls_u1_u2)
  have nf: "\<And>n url. url \<in> set (parse_urls ''u1, u2'') \<Longrightarrow>
              \<exists>body. http_get world_all_404 n url = Response 404 body"
    by (simp add: world_all_404_def world_pages_config)
  from ingest_all_404 [OF config_all_404 ne nf, of "request_with None" initial_state]
  show ?thesis by (auto simp: initial_state_def)
qed

text \<open>
  C2: what the code does. Where the fetch of a URL is answered by 404,
  \<open>prepare_documents\<close> on that URL returns the empty list and raises nothing, and the
  loop of the handler goes on with the remaining URLs with the same documents and the
  same skipped list: no Skip Record is added for the URL.
\<close>

theorem ingest_404_not_recorded:
  assumes "http_get w (requests_sent s) url = Response 404 body"
  shows "prepare_documents w [url] chunk_size overlap (requests_sent s)
           = Some (Inr [], Suc (requests_sent s)) \<and>
         ingest_urls w chunk_size overlap (url # urls) all_documents skipped_urls s =
           ingest_urls w chunk_size overlap urls all_documents skipped_urls
             (logger INFO ''Prepared documents for URL''
                (JObj [(''url'', JStr url), (''document_count'', JInt 0)])
                (s\<lparr>requests_sent := Suc (requests_sent s)\<rparr>))"
  using prepare_documents_404 [OF assms] ingest_urls_404_step [OF assms] by simp

lemma config_mixed:
  "ingest_authorized world_mixed req"
  "get_env_required world_mixed ''STRIPE_DOC_URLS'' = Inr ''u1,u2''"
  "int_of_env world_mixed ''CHUNK_SIZE'' = Inr 1"
  "int_of_env world_mixed ''CHUNK_OVERLAP'' = Inr 0"
  by (simp_all add: world_mixed_def authorized_world_pages get_env_required_def
      int_of_env_def get_env_def world_pages_config int_table_def)

theorem ingest_404_not_recorded_witness:
  "prepare_documents world_mixed [''u1''] 1 0 0 = Some (Inr [], 1) \<and>
   map_option fst (ingest_stripe_docs world_mixed (request_with None) initial_state)
     = Some (JObj [(''status'', JStr ''ok''), (''ingested'', JInt 3), (''skipped'', JArr [])], 200)"
proof -
  have nf: "\<And>s. http_get world_mixed (requests_sent s) ''u1'' = Response 404 ''not found''"
    by (simp add: world_mixed_def world_pages_config)
  have ne: "parse_urls ''u1,u2'' \<noteq> []" by (simp add: parse_urls_u1_u2)
  have vs: "\<And>docs. vector_store world_mixed docs = None"
    by (simp add: world_mixed_def world_pages_config)
  have 1: "prepare_documents world_mixed [''u1''] 1 0 0 = Some (Inr [], 1)"
    using ingest_404_not_recorded [OF nf [of initial_state], where chunk_size = 1 and overlap = 0]
    by (simp add: initial_state_def)
  have 2: "map_option fst (ingest_stripe_docs world_mixed (request_with None) initial_state)
     = Some (JObj [(''status'', JStr ''ok''), (''ingested'', JInt 3), (''skipped'', JArr [])], 200)"
    by (simp add: ingest_stripe_docs_received ingest_try_configured [OF config_mixed ne]
        parse_urls_u1_u2 ingest_404_not_recorded [OF nf] prepare_documents_mixed
        ingest_finish_def upsert_documents_def vs Let_def del: ingest_urls.simps(2))
       (simp add: prepare_documents_mixed ingest_finish_def upsert_documents_def vs Let_def)
  from 1 2 show ?thesis by simp
qed


lemma prepare_documents_exhausted:
  assumes "\<And>k. k < 5 \<Longrightarrow> fetch_once w (n + k) url = Inl (e (n + k))"
  shows "prepare_documents w [url] chunk_size overlap n
           = Some (Inl (TenacityRetryError (e (n + 4))), n + 5)"
  by (simp add: prepare_documents_single fetch_url_exhausted [where e = e, OF assms])

lemma tenacity_not_caught:
  "\<not> is_GoogleRetryError (TenacityRetryError c)"
  "\<not> is_HTTPError (TenacityRetryError c)"
  "\<not> is_RequestException (TenacityRetryError c)"
  by (simp_all add: is_GoogleRetryError_def is_HTTPError_def is_RequestException_def)

text \<open>
  C3: what the code does. Where the five attempts of the fetch of a URL all raise (a
  status from 400 to 599 other than 404, or a failure of the request), tenacity's
  RetryError leaves \<open>prepare_documents\<close> and the loop of the handler: none of the
  \<^verbatim>\<open>except\<close> clauses of the loop is for its class. Once it has left the \<^verbatim>\<open>try\<close> block,
  the clause \<^verbatim>\<open>except RetryError\<close> (the class of \<^verbatim>\<open>google.api_core\<close>) does not catch
  it either; \<^verbatim>\<open>except Exception\<close> does, and the response is 500 with the body
  \<open>{"error": str(exc)}\<close>, the root cause not being logged on its own.
\<close>

theorem ingest_retry_exhausted:
  assumes "\<And>k. k < 5 \<Longrightarrow>
             fetch_once w (requests_sent s + k) url = Inl (e (requests_sent s + k))"
  shows "prepare_documents w [url] chunk_size overlap (requests_sent s)
           = Some (Inl (TenacityRetryError (e (requests_sent s + 4))), requests_sent s + 5) \<and>
         ingest_urls w chunk_size overlap (url # urls) all_documents skipped_urls s
           = Some (Inl (TenacityRetryError (e (requests_sent s + 4))),
                   s\<lparr>requests_sent := requests_sent s + 5\<rparr>) \<and>
         (\<forall>req s0 s1.
            ingest_try w req (received req s0)
              = Some (Inl (TenacityRetryError (e (requests_sent s + 4))), s1) \<longrightarrow>
            ingest_stripe_docs w req s0
              = Some ((JObj [(''error'',
                              JStr (str_exc w (TenacityRetryError (e (requests_sent s + 4)))))],
                       500),
                      logger EXCEPTION ''Unhandled exception during ingestion'' JNull s1))"
proof (intro conjI allI impI)
  show p: "prepare_documents w [url] chunk_size overlap (requests_sent s)
           = Some (Inl (TenacityRetryError (e (requests_sent s + 4))), requests_sent s + 5)"
    by (rule prepare_documents_exhausted [OF assms])
  show "ingest_urls w chunk_size overlap (url # urls) all_documents skipped_urls s
           = Some (Inl (TenacityRetryError (e (requests_sent s + 4))),
                   s\<lparr>requests_sent := requests_sent s + 5\<rparr>)"
    by (simp add: p tenacity_not_caught)
next
  fix req s0 s1
  assume "ingest_try w req (received req s0)
            = Some (Inl (TenacityRetryError (e (requests_sent s + 4))), s1)"
  then show "ingest_stripe_docs w req s0
              = Some ((JObj [(''error'',
                              JStr (str_exc w (TenacityRetryError (e (requests_sent s + 4)))))],
                       500),
                      logger EXCEPTION ''Unhandled exception during ingestion'' JNull s1)"
    by (simp add: ingest_stripe_docs_received tenacity_not_caught)
qed

lemma config_500:
  "ingest_authorized world_500 req"
  "get_env_required world_500 ''STRIPE_DOC_URLS'' = Inr ''u1''"
  "int_of_env world_500 ''CHUNK_SIZE'' = Inr 800"
  "int_of_env world_500 ''CHUNK_OVERLAP'' = Inr 120"
  by (simp_all add: world_500_def authorized_world_pages get_env_required_def
      int_of_env_def get_env_def world_pages_config int_table_def)

lemma fetch_once_500: "fetch_once world_500 n ''u1'' = Inl (HTTPError (Some 500) ''u1'')"
  by (simp add: fetch_once_def world_500_def world_pages_config)

theorem ingest_retry_exhausted_witness:
  "map_option fst (ingest_stripe_docs world_500 (request_with None) initial_state)
     = Some (JObj [(''error'', JStr ''RetryError[last attempt]'')], 500) \<and>
   map_option (\<lambda>r. map (\<lambda>l. fst (snd l)) (log_lines (snd r)))
     (ingest_stripe_docs world_500 (request_with None) initial_state)
     = Some [''Ingest request received'', ''Preparing documents'',
             ''Unhandled exception during ingestion'']"
proof -
  let ?s = "logger INFO ''Preparing documents''
              (JObj [(''url_count'', JInt (int (length (parse_urls ''u1'')))),
                     (''chunk_size'', JInt 800), (''overlap'', JInt 120)])
              (received (request_with None) initial_state)"
  have ne: "parse_urls ''u1'' \<noteq> []" by (simp add: parse_urls_u1)
  have str: "str_exc world_500 (TenacityRetryError (HTTPError (Some 500) ''u1''))
               = ''RetryError[last attempt]''"
    by (simp add: world_500_def world_pages_def)
  note t = ingest_retry_exhausted
    [where w = world_500 and s = ?s and url = "''u1''"
       and e = "\<lambda>n. HTTPError (Some 500) ''u1''", OF fetch_once_500,
     where chunk_size = 800 and overlap = 120 and urls = "[]" and all_documents = "[]"
       and skipped_urls = "[]"]
  from t have loop: "ingest_urls world_500 800 120 [''u1''] [] [] ?s
      = Some (Inl (TenacityRetryError (HTTPError (Some 500) ''u1'')),
              ?s\<lparr>requests_sent := requests_sent ?s + 5\<rparr>)"
    by blast
  have body: "ingest_try world_500 (request_with None) (received (request_with None) initial_state)
      = Some (Inl (TenacityRetryError (HTTPError (Some 500) ''u1'')),
              ?s\<lparr>requests_sent := requests_sent ?s + 5\<rparr>)"
    using loop by (simp add: ingest_try_configured [OF config_500 ne] parse_urls_u1)
  from t body
  have "ingest_stripe_docs world_500 (request_with None) initial_state
      = Some ((JObj [(''error'', JStr ''RetryError[last attempt]'')], 500),
              logger EXCEPTION ''Unhandled exception during ingestion'' JNull
                (?s\<lparr>requests_sent := requests_sent ?s + 5\<rparr>))"
    by (simp add: str)
  then show ?thesis
    by (simp add: received_def initial_state_def)
qed


section \<open>The skipped list stays empty\<close>

text \<open>
  Behind C1 and C2: the exceptions that leave \<open>prepare_documents\<close> are tenacity's
  RetryError and the ValueError of \<^verbatim>\<open>urljoin\<close>, which no \<^verbatim>\<open>except\<close> clause of the loop
  catches, so the loop never adds a Skip Record and the handler never answers 207.
\<close>

lemma resolve_links_raises:
  "resolve_links w base_url hrefs = Inl x \<Longrightarrow> \<exists>href. x = ValueError href"
  by (induction hrefs) (auto split: option.splits sum.splits)

lemma page_documents_raises:
  "page_documents w url html chunk_size overlap = Some (Inl x) \<Longrightarrow> \<exists>href. x = ValueError href"
  by (auto simp: page_documents_def extract_text_from_html_def Let_def
      split: sum.splits option.splits dest: resolve_links_raises)

lemma prepare_documents_raises:
  assumes "prepare_documents w [url] chunk_size overlap n = Some (Inl x, m)"
  shows "(\<exists>cause. x = TenacityRetryError cause) \<or> (\<exists>href. x = ValueError href)"
proof (cases "fetch_url w url n")
  case (Pair r k)
  show ?thesis
  proof (cases r)
    case (Inl e)
    with Pair assms have "x = e" by (simp add: prepare_documents_single)
    with fetch_url_raises_retry_error [of w url n e k] Pair Inl show ?thesis by simp
  next
    case (Inr v)
    with Pair assms show ?thesis
      by (auto simp: prepare_documents_single split: option.splits
          dest: page_documents_raises)
  qed
qed

lemma not_caught_in_loop:
  assumes "(\<exists>cause. x = TenacityRetryError cause) \<or> (\<exists>href. x = ValueError href)"
  shows "\<not> is_GoogleRetryError x \<and> \<not> is_HTTPError x \<and> \<not> is_RequestException x"
  using assms
  by (auto simp: is_GoogleRetryError_def is_HTTPError_def is_RequestException_def)

lemma ingest_urls_step:
  "ingest_urls w chunk_size overlap (url # urls) all_documents skipped_urls s =
     (case prepare_documents w [url] chunk_size overlap (requests_sent s) of
        None \<Rightarrow> None
      | Some (Inr docs, n) \<Rightarrow>
          ingest_urls w chunk_size overlap urls (all_documents @ docs) skipped_urls
            (logger INFO ''Prepared documents for URL''
               (JObj [(''url'', JStr url), (''document_count'', JInt (int (length docs)))])
               (s\<lparr>requests_sent := n\<rparr>))
      | Some (Inl e, n) \<Rightarrow> Some (Inl e, s\<lparr>requests_sent := n\<rparr>))"
proof (cases "prepare_documents w [url] chunk_size overlap (requests_sent s)")
  case None
  then show ?thesis by simp
next
  case (Some r)
  obtain x n where r: "r = (x, n)" by (cases r)
  show ?thesis
  proof (cases x)
    case (Inl e)
    from not_caught_in_loop [OF prepare_documents_raises
        [of w url chunk_size overlap "requests_sent s" e n]] Some r Inl
    have "\<not> is_GoogleRetryError e \<and> \<not> is_HTTPError e \<and> \<not> is_RequestException e"
      by simp
    with Some r Inl show ?thesis by simp
  next
    case (Inr docs)
    with Some r show ?thesis by simp
  qed
qed

lemma ingest_urls_skipped_unchanged:
  "ingest_urls w chunk_size overlap urls all_documents skipped_urls s = Some (Inr (docs, skipped), s')
   \<Longrightarrow> skipped = skipped_urls"
proof (induction urls arbitrary: all_documents s)
  case Nil
  then show ?case by simp
next
  case (Cons url urls)
  from Cons.prems show ?case
    unfolding ingest_urls_step
    by (auto split: option.splits sum.splits prod.splits dest: Cons.IH)
qed

lemma ingest_finish_status:
  "ingest_finish w all_documents [] s = (Inr (body, code), s') \<Longrightarrow> code = 200"
  by (auto simp: ingest_finish_def Let_def split: prod.splits sum.splits)

lemma ingest_try_never_207:
  assumes "ingest_try w req s = Some (Inr (body, code), s')"
  shows "code \<noteq> 207"
proof -
  have "code = 401 \<or> code = 400 \<or> code = 200"
    using assms
    by (auto simp: ingest_try_def Let_def
        split: sum.splits if_splits option.splits prod.splits
        dest!: ingest_urls_skipped_unchanged dest: ingest_finish_status)
  then show ?thesis by auto
qed

lemma ingest_stripe_docs_never_207:
  assumes "ingest_stripe_docs w req s = Some ((body, code), s')"
  shows "code \<noteq> 207"
  using assms ingest_try_never_207 [of w req "received req s" body code]
  by (auto simp: ingest_stripe_docs_received Let_def
      split: option.splits prod.splits sum.splits if_splits)



end
